theory Spec2Isabelle
  imports Complex_Main "HOL-Library.Sublist" "HOL-Library.AList"
begin

section \<open>NHLScores: the logo cache resolver, the schedule fetcher, the batch converter\<close>

text \<open>
  A shallow embedding of \<^verbatim>\<open>src/NHLscores.py\<close> (\<^verbatim>\<open>ensure_logo_cached\<close>,
  \<^verbatim>\<open>fetch_games\<close>) and of the script \<^verbatim>\<open>src/convert_logos.py\<close>.

  The Python code works on decoded JSON, on a directory of files and on library calls
  (\<^verbatim>\<open>urlparse\<close>, \<^verbatim>\<open>requests\<close>, \<^verbatim>\<open>cairosvg\<close>, \<^verbatim>\<open>svglib\<close>,
  \<^verbatim>\<open>datetime\<close>). The JSON values and the control flow of the two functions are
  modelled as they are written. The library calls are parameters: a record \<open>libs\<close> of the
  pure ones and a record \<open>world\<close> of the ones with an effect, about which nothing is
  assumed. The directory is a map from path to content, and every input/output operation
  is recorded, in order, in a log that is part of the state.
\<close>

subsection \<open>Decoded JSON, as Python sees it\<close>

text \<open>
  \<^verbatim>\<open>response.json()\<close> yields \<^verbatim>\<open>None\<close>, a bool, an int, a float, a str, a list or a
  dict with string keys. A dict is an association list (looked up with \<open>map_of\<close>); the
  keys of a decoded JSON object are distinct. Strings are byte strings.
\<close>

datatype json =
    JNull
  | JBool bool
  | JInt int
  | JFloat real
  | JStr string
  | JList "json list"
  | JDict "(string \<times> json) list"

text \<open>
  Exceptions that reach the caller of a modelled function: the two that the code itself
  raises on an ill-typed value, and whatever a library call raised (with its text).
\<close>

datatype exn = AttributeError | TypeError | LibError string

text \<open>\<^verbatim>\<open>d.get(k)\<close> and \<^verbatim>\<open>d.get(k, default)\<close> on a dict.\<close>

definition dict_get :: "(string \<times> json) list \<Rightarrow> string \<Rightarrow> json" where
  "dict_get d k = (case map_of d k of None \<Rightarrow> JNull | Some v \<Rightarrow> v)"

definition dict_get_default :: "(string \<times> json) list \<Rightarrow> string \<Rightarrow> json \<Rightarrow> json" where
  "dict_get_default d k dflt = (case map_of d k of None \<Rightarrow> dflt | Some v \<Rightarrow> v)"

text \<open>Python's truth value of a decoded JSON value.\<close>

fun truthy :: "json \<Rightarrow> bool" where
  "truthy JNull = False"
| "truthy (JBool b) = b"
| "truthy (JInt i) = (i \<noteq> 0)"
| "truthy (JFloat x) = (x \<noteq> 0)"
| "truthy (JStr s) = (s \<noteq> [])"
| "truthy (JList xs) = (xs \<noteq> [])"
| "truthy (JDict d) = (d \<noteq> [])"

text \<open>\<^verbatim>\<open>a or b\<close>: the first operand when it is true, the second otherwise.\<close>

definition py_or :: "json \<Rightarrow> json \<Rightarrow> json" where
  "py_or a b = (if truthy a then a else b)"

text \<open>
  \<^verbatim>\<open>for x in v\<close>: a list gives its elements, a dict its keys, a str its characters;
  anything else is not iterable.
\<close>

fun py_iter :: "json \<Rightarrow> exn + json list" where
  "py_iter (JList xs) = Inr xs"
| "py_iter (JDict d) = Inr (map (\<lambda>kv. JStr (fst kv)) d)"
| "py_iter (JStr s) = Inr (map (\<lambda>c. JStr [c]) s)"
| "py_iter v = Inl TypeError"

text \<open>
  \<^verbatim>\<open>'key' in v\<close> for a string key: a key of a dict, an element of a list, a substring
  of a str; anything else raises TypeError.
\<close>

fun py_in :: "string \<Rightarrow> json \<Rightarrow> exn + bool" where
  "py_in k (JDict d) = Inr (map_of d k \<noteq> None)"
| "py_in k (JList xs) = Inr (JStr k \<in> set xs)"
| "py_in k (JStr s) = Inr (sublist k s)"
| "py_in k v = Inl TypeError"

subsection \<open>Formatting\<close>

definition digit_char :: "nat \<Rightarrow> char" where
  "digit_char n = ''0123456789'' ! (n mod 10)"

function str_nat :: "nat \<Rightarrow> string" where
  "str_nat n = (if n < 10 then [digit_char n] else str_nat (n div 10) @ [digit_char (n mod 10)])"
  by pat_completeness auto
termination
  by (relation "measure (\<lambda>n. n)") auto

declare str_nat.simps [simp del]

definition str_int :: "int \<Rightarrow> string" where
  "str_int i = (if i < 0 then ''-'' @ str_nat (nat (- i)) else str_nat (nat i))"

text \<open>ASCII lower-casing, enough to compare with \<^verbatim>\<open>".svg"\<close>, \<^verbatim>\<open>".png"\<close>, \<^verbatim>\<open>".jpg"\<close>.\<close>

definition lower_char :: "char \<Rightarrow> char" where
  "lower_char c =
     (case map_of (zip ''ABCDEFGHIJKLMNOPQRSTUVWXYZ'' ''abcdefghijklmnopqrstuvwxyz'') c of
        Some l \<Rightarrow> l
      | None \<Rightarrow> c)"

definition lower :: "string \<Rightarrow> string" where
  "lower s = map lower_char s"

subsection \<open>The library calls\<close>

text \<open>The local wall-clock time of a timestamp, as \<^verbatim>\<open>astimezone()\<close> returns it.\<close>

record local_time =
  hour :: nat
  minute :: nat

text \<open>
  The pure library calls.
  \<^item> \<open>str_other\<close>: \<^verbatim>\<open>str(v)\<close> for a float, a list or a dict (their formats are not
    modelled).
  \<^item> \<open>url_ext\<close>: \<^verbatim>\<open>os.path.splitext(urlparse(u).path)[1]\<close>, or the exception
    \<^verbatim>\<open>urlparse\<close> raises.
  \<^item> \<open>LOGO_DIR\<close> and \<open>path_join\<close>: the cache directory and \<^verbatim>\<open>os.path.join\<close>.
  \<^item> \<open>to_local\<close>: \<^verbatim>\<open>datetime.fromisoformat(s).astimezone()\<close>, \<open>None\<close> when either
    raises.
\<close>

record libs =
  str_other :: "json \<Rightarrow> string"
  url_ext :: "string \<Rightarrow> exn + string"
  LOGO_DIR :: string
  path_join :: "string \<Rightarrow> string \<Rightarrow> string"
  to_local :: "string \<Rightarrow> local_time option"

text \<open>
  The library calls with an effect. A caught exception is known by its text only
  (\<open>Inl\<close> of \<^verbatim>\<open>str(e)\<close>).
  \<^item> \<open>requests_get_json\<close>: \<^verbatim>\<open>requests.get(url).json()\<close>.
  \<^item> \<open>requests_get\<close>: \<^verbatim>\<open>requests.get(url, timeout=20)\<close>, \<^verbatim>\<open>raise_for_status()\<close>,
    \<^verbatim>\<open>.content\<close>.
  \<^item> \<open>cairosvg_imported\<close>: \<^verbatim>\<open>cairosvg is not None\<close>; \<open>cairosvg_svg2png\<close>: the PNG that
    \<^verbatim>\<open>cairosvg.svg2png\<close> writes for an SVG content and a destination, or its failure.
  \<^item> \<open>svglib_available\<close> and \<open>svglib_render\<close>: the same for \<^verbatim>\<open>svg2rlg\<close> followed by
    \<^verbatim>\<open>renderPM.drawToFile\<close>.
  \<^item> \<open>write_error\<close>: the failure of \<^verbatim>\<open>open(path, 'wb')\<close> and \<^verbatim>\<open>f.write\<close>, if any.
\<close>

record world =
  requests_get_json :: "string \<Rightarrow> exn + json"
  requests_get :: "string \<Rightarrow> string + string"
  cairosvg_imported :: bool
  cairosvg_svg2png :: "string \<Rightarrow> string \<Rightarrow> string + string"
  svglib_available :: bool
  svglib_render :: "string \<Rightarrow> string \<Rightarrow> string + string"
  write_error :: "string \<Rightarrow> string option"

text \<open>\<^verbatim>\<open>str(v)\<close>, as an f-string formats a value.\<close>

fun py_str :: "libs \<Rightarrow> json \<Rightarrow> string" where
  "py_str L JNull = ''None''"
| "py_str L (JBool b) = (if b then ''True'' else ''False'')"
| "py_str L (JInt i) = str_int i"
| "py_str L (JStr s) = s"
| "py_str L v = str_other L v"

subsection \<open>The state: the files and the log of operations\<close>

datatype converter = Cairosvg | Svglib

text \<open>
  An operation of a run, with its outcome (\<open>True\<close>: it succeeded): a printed line, the
  download of a URL, a conversion into a destination path, the writing of a file.
\<close>

datatype event =
    Print string
  | HttpGet string bool
  | Convert converter string bool
  | FileWrite string bool

text \<open>
  A failed write or conversion leaves the files as they were; a file is known by the exact
  string of its path.
\<close>

record cache =
  files :: "string \<rightharpoonup> string"
  log :: "event list"

definition emit :: "event \<Rightarrow> cache \<Rightarrow> cache" where
  "emit ev s = s\<lparr>log := log s @ [ev]\<rparr>"

definition print :: "string \<Rightarrow> cache \<Rightarrow> cache" where
  "print m s = emit (Print m) s"

definition os_path_exists :: "cache \<Rightarrow> string \<Rightarrow> bool" where
  "os_path_exists s p = (files s p \<noteq> None)"

definition store :: "string \<Rightarrow> string \<Rightarrow> cache \<Rightarrow> cache" where
  "store p c s = s\<lparr>files := (files s)(p \<mapsto> c)\<rparr>"

text \<open>
  \<^verbatim>\<open>with open(p, 'wb') as f: f.write(content)\<close>: the failure's text, or the file written.
\<close>

definition write_file :: "world \<Rightarrow> string \<Rightarrow> string \<Rightarrow> cache \<Rightarrow> string option \<times> cache" where
  "write_file W p c s =
     (case write_error W p of
        Some m \<Rightarrow> (Some m, emit (FileWrite p False) s)
      | None \<Rightarrow> (None, emit (FileWrite p True) (store p c s)))"

text \<open>A call of a converter on an SVG content: on success the PNG is in the destination.\<close>

definition run_converter ::
  "world \<Rightarrow> converter \<Rightarrow> string \<Rightarrow> string \<Rightarrow> cache \<Rightarrow> string option \<times> cache" where
  "run_converter W cv svg dest s =
     (case (case cv of Cairosvg \<Rightarrow> cairosvg_svg2png W svg dest
                     | Svglib \<Rightarrow> svglib_render W svg dest) of
        Inl m \<Rightarrow> (Some m, emit (Convert cv dest False) s)
      | Inr png \<Rightarrow> (None, emit (Convert cv dest True) (store dest png s)))"

subsection \<open>\<^verbatim>\<open>ensure_logo_cached\<close> (NHLscores.py, lines 42 to 142)\<close>

text \<open>Lines 43 to 47: the abbreviation and the logo URL of a team object.\<close>

definition team_abbrev :: "json \<Rightarrow> json" where
  "team_abbrev team_obj = (case team_obj of JDict d \<Rightarrow> dict_get d ''abbrev'' | _ \<Rightarrow> JNull)"

definition team_logo_url :: "json \<Rightarrow> json" where
  "team_logo_url team_obj =
     (case team_obj of
        JDict d \<Rightarrow> py_or (dict_get d ''darkLogo'') (dict_get d ''logo'')
      | _ \<Rightarrow> JNull)"

text \<open>\<^verbatim>\<open>os.path.join(LOGO_DIR, f"{abbrev}{sfx}")\<close>.\<close>

definition logo_path :: "libs \<Rightarrow> string \<Rightarrow> string \<Rightarrow> string" where
  "logo_path L a sfx = path_join L (LOGO_DIR L) (a @ sfx)"

definition png_path_of :: "libs \<Rightarrow> json \<Rightarrow> string" where
  "png_path_of L abbrev = logo_path L (py_str L abbrev) ''.png''"

text \<open>
  One \<^verbatim>\<open>try\<close> block around a converter: the line printed before, the call, and the
  line printed after it (the warning ends with the exception's text). \<open>True\<close>: the block
  returned \<^verbatim>\<open>png_path\<close>.
\<close>

definition attempt ::
  "world \<Rightarrow> converter \<Rightarrow> string \<Rightarrow> string \<Rightarrow> string \<Rightarrow> string \<Rightarrow> string \<Rightarrow> cache
     \<Rightarrow> bool \<times> cache" where
  "attempt W cv starting succeeded failed svg dest s =
     (case run_converter W cv svg dest (print starting s) of
        (None, s') \<Rightarrow> (True, print succeeded s')
      | (Some m, s') \<Rightarrow> (False, print (failed @ m) s'))"

text \<open>
  Lines 66 to 91: a cached SVG file (content \<open>svg\<close>) exists. Both converters are tried;
  when none returned, the function returns \<^verbatim>\<open>None\<close> (line 91).
\<close>

definition convert_existing ::
  "world \<Rightarrow> string \<Rightarrow> string \<Rightarrow> string \<Rightarrow> cache \<Rightarrow> string option \<times> cache" where
  "convert_existing W a svg png_path s =
     (let (ok1, s1) =
            (if cairosvg_imported W
             then attempt W Cairosvg
                    (''Converting existing '' @ a @ ''.svg to PNG with cairosvg...'')
                    (''Successfully converted '' @ a @ ''.svg to PNG'')
                    (''Warning: cairosvg conversion failed for '' @ a @ '': '')
                    svg png_path s
             else (False, s))
      in if ok1 then (Some png_path, s1)
         else
           let (ok2, s2) =
                 (if svglib_available W
                  then attempt W Svglib
                         (''Converting existing '' @ a @ ''.svg to PNG with svglib...'')
                         (''Successfully converted '' @ a @ ''.svg to PNG'')
                         (''Warning: svglib conversion failed for '' @ a @ '': '')
                         svg png_path s1
                  else (False, s1))
           in if ok2 then (Some png_path, s2)
              else if \<not> cairosvg_imported W \<and> \<not> svglib_available W
              then (None,
                    print ''Install with: pip install svglib reportlab''
                      (print (''Warning: '' @ a @ ''.svg exists but no SVG converter is available.'')
                         s2))
              else (None, s2))"

text \<open>
  Lines 103 to 127: the downloaded content is an SVG. \<open>True\<close>: a converter wrote the PNG
  and the function returns \<^verbatim>\<open>png_path\<close>. With svglib the SVG is saved first, inside
  the \<^verbatim>\<open>try\<close>.
\<close>

definition convert_downloaded ::
  "libs \<Rightarrow> world \<Rightarrow> string \<Rightarrow> string \<Rightarrow> string \<Rightarrow> cache \<Rightarrow> bool \<times> cache" where
  "convert_downloaded L W a content png_path s =
     (let (ok1, s1) =
            (if cairosvg_imported W
             then attempt W Cairosvg
                    (''Converting downloaded '' @ a @ '' SVG to PNG with cairosvg...'')
                    (''Successfully converted '' @ a @ '' SVG to PNG'')
                    (''Warning: cairosvg conversion failed for '' @ a @ '': '')
                    content png_path s
             else (False, s))
      in if ok1 then (True, s1)
         else if svglib_available W
         then (case write_file W (logo_path L a ''.svg'') content s1 of
                 (Some m, s2) \<Rightarrow>
                   (False, print (''Warning: svglib conversion failed for '' @ a @ '': '' @ m) s2)
               | (None, s2) \<Rightarrow>
                   attempt W Svglib
                     (''Converting downloaded '' @ a @ '' SVG to PNG with svglib...'')
                     (''Successfully converted '' @ a @ '' SVG to PNG'')
                     (''Warning: svglib conversion failed for '' @ a @ '': '')
                     content png_path s2)
         else (False, s1))"

text \<open>Lines 129 to 142: the original is saved; only a PNG or a JPEG is returned.\<close>

definition save_original ::
  "libs \<Rightarrow> world \<Rightarrow> string \<Rightarrow> string \<Rightarrow> string \<Rightarrow> cache \<Rightarrow> string option \<times> cache" where
  "save_original L W a ext content s =
     (let src_path = logo_path L a ext
      in case write_file W src_path content s of
           (Some m, s') \<Rightarrow> (None, s')
         | (None, s') \<Rightarrow>
             (if lower ext \<in> set [''.png'', ''.jpg'', ''.jpeg''] then Some src_path else None, s'))"

text \<open>Lines 93 to 142: nothing is cached, the source asset is downloaded.\<close>

definition download_logo ::
  "libs \<Rightarrow> world \<Rightarrow> string \<Rightarrow> string \<Rightarrow> string \<Rightarrow> string \<Rightarrow> cache \<Rightarrow> string option \<times> cache" where
  "download_logo L W a logo_url ext png_path s =
     (case requests_get W logo_url of
        Inl m \<Rightarrow>
          (None,
           print (''Warning: Failed to download logo for '' @ a @ '': '' @ m)
             (emit (HttpGet logo_url False) s))
      | Inr content \<Rightarrow>
          (let (ok, s1) =
                 (if lower ext = ''.svg''
                  then convert_downloaded L W a content png_path (emit (HttpGet logo_url True) s)
                  else (False, emit (HttpGet logo_url True) s))
           in if ok then (Some png_path, s1) else save_original L W a ext content s1))"

text \<open>
  The function. \<^verbatim>\<open>urlparse\<close> raises on a value that is not a string, and may raise on
  a string; no handler is around it. Everything after it is caught.
\<close>

definition ensure_logo_cached ::
  "libs \<Rightarrow> world \<Rightarrow> json \<Rightarrow> cache \<Rightarrow> (exn + string option) \<times> cache" where
  "ensure_logo_cached L W team_obj s =
     (let abbrev = team_abbrev team_obj;
          logo_url = team_logo_url team_obj
      in if \<not> truthy abbrev \<or> \<not> truthy logo_url then (Inr None, s)
         else
           (case logo_url of
              JStr u \<Rightarrow>
                (case url_ext L u of
                   Inl e \<Rightarrow> (Inl e, s)
                 | Inr ext0 \<Rightarrow>
                     (let ext = (if ext0 = [] then ''.svg'' else ext0);
                          a = py_str L abbrev;
                          png_path = png_path_of L abbrev
                      in if os_path_exists s png_path then (Inr (Some png_path), s)
                         else
                           (case files s (logo_path L a ''.svg'') of
                              Some svg \<Rightarrow>
                                (case convert_existing W a svg png_path s of
                                   (r, s') \<Rightarrow> (Inr r, s'))
                            | None \<Rightarrow>
                                (case download_logo L W a u ext png_path s of
                                   (r, s') \<Rightarrow> (Inr r, s')))))
            | _ \<Rightarrow> (Inl AttributeError, s)))"

subsection \<open>\<^verbatim>\<open>fetch_games\<close> (NHLscores.py, lines 144 to 216)\<close>

text \<open>
  \<^verbatim>\<open>s.replace(old, new)\<close> for a pattern that is not empty: every occurrence, from the
  left.
\<close>

function str_replace :: "string \<Rightarrow> string \<Rightarrow> string \<Rightarrow> string" where
  "str_replace old new [] = []"
| "str_replace old new (c # cs) =
     (if old \<noteq> [] \<and> prefix old (c # cs)
      then new @ str_replace old new (drop (length old) (c # cs))
      else c # str_replace old new cs)"
  by pat_completeness auto
termination
  by (relation "measure (\<lambda>(old, new, s). length s)") auto

text \<open>
  \<^verbatim>\<open>strftime('%I:%M %p')\<close> of a local time: the hour of the 12-hour clock and the
  minute, each padded to two digits, and AM or PM (the names of the C locale, which a
  Python process has unless it sets another).
\<close>

definition two_digits :: "nat \<Rightarrow> string" where
  "two_digits n = (if n < 10 then ''0'' @ str_nat n else str_nat n)"

definition strftime_I_M_p :: "local_time \<Rightarrow> string" where
  "strftime_I_M_p t =
     two_digits (if hour t mod 12 = 0 then 12 else hour t mod 12) @ '':'' @
     two_digits (minute t) @ '' '' @ (if hour t < 12 then ''AM'' else ''PM'')"

text \<open>
  Lines 194 to 202. A value that is not a string has no \<^verbatim>\<open>replace\<close>: the
  AttributeError is caught like a parse error.
\<close>

definition time_display :: "libs \<Rightarrow> json \<Rightarrow> string" where
  "time_display L start_time_utc =
     (if truthy start_time_utc
      then (case start_time_utc of
              JStr t \<Rightarrow>
                (case to_local L (str_replace ''Z'' ''+00:00'' t) of
                   Some lt \<Rightarrow> strftime_I_M_p lt
                 | None \<Rightarrow> ''TBD'')
            | _ \<Rightarrow> ''TBD'')
      else ''TBD'')"

text \<open>An element of \<^verbatim>\<open>games_data\<close>.\<close>

record game_rec =
  away_abbrev :: json
  home_abbrev :: json
  away_score :: json
  home_score :: json
  away_logo :: "string option"
  home_logo :: "string option"
  is_scheduled :: bool
  start_time :: "string option"

text \<open>Lines 178 to 214: the summary line and the record of one game.\<close>

definition game_entry ::
  "libs \<Rightarrow> json \<Rightarrow> json \<Rightarrow> json \<Rightarrow> json \<Rightarrow> json \<Rightarrow> string option \<Rightarrow> string option
     \<Rightarrow> string \<times> game_rec" where
  "game_entry L away_team home_team a_score h_score start_time_utc a_logo h_logo =
     (if a_score \<noteq> JNull \<and> h_score \<noteq> JNull
      then (py_str L away_team @ '' vs '' @ py_str L home_team @ '' - '' @
              py_str L a_score @ '':'' @ py_str L h_score,
            \<lparr> away_abbrev = away_team, home_abbrev = home_team,
              away_score = a_score, home_score = h_score,
              away_logo = a_logo, home_logo = h_logo,
              is_scheduled = False, start_time = None \<rparr>)
      else (let td = time_display L start_time_utc
            in (py_str L away_team @ '' vs '' @ py_str L home_team @ '' - '' @ td,
                \<lparr> away_abbrev = away_team, home_abbrev = home_team,
                  away_score = JNull, home_score = JNull,
                  away_logo = a_logo, home_logo = h_logo,
                  is_scheduled = True, start_time = Some td \<rparr>)))"

text \<open>
  Lines 162 to 214: the body of the loop over the games of a day. \<^verbatim>\<open>.get\<close> on a game
  or on a team object that is not a dict raises AttributeError; an exception of
  \<^verbatim>\<open>ensure_logo_cached\<close> is not caught.
\<close>

definition game_step ::
  "libs \<Rightarrow> world \<Rightarrow> json \<Rightarrow> string list \<times> game_rec list \<Rightarrow> cache
     \<Rightarrow> (exn + string list \<times> game_rec list) \<times> cache" where
  "game_step L W game acc s =
     (case game of
        JDict g \<Rightarrow>
          (let away_team_obj = dict_get_default g ''awayTeam'' (JDict []);
               home_team_obj = dict_get_default g ''homeTeam'' (JDict [])
           in case away_team_obj of
                JDict a \<Rightarrow>
                  (case home_team_obj of
                     JDict h \<Rightarrow>
                       (case ensure_logo_cached L W away_team_obj s of
                          (Inl e, s1) \<Rightarrow> (Inl e, s1)
                        | (Inr a_logo, s1) \<Rightarrow>
                            (case ensure_logo_cached L W home_team_obj s1 of
                               (Inl e, s2) \<Rightarrow> (Inl e, s2)
                             | (Inr h_logo, s2) \<Rightarrow>
                                 (let (line, r) =
                                        game_entry L (dict_get a ''abbrev'') (dict_get h ''abbrev'')
                                          (dict_get a ''score'') (dict_get h ''score'')
                                          (dict_get g ''startTimeUTC'') a_logo h_logo
                                  in (Inr (fst acc @ [line], snd acc @ [r]), s2))))
                   | _ \<Rightarrow> (Inl AttributeError, s))
              | _ \<Rightarrow> (Inl AttributeError, s))
      | _ \<Rightarrow> (Inl AttributeError, s))"

text \<open>Line 161: the loop over the games; an exception ends it.\<close>

fun for_games ::
  "libs \<Rightarrow> world \<Rightarrow> json list \<Rightarrow> string list \<times> game_rec list \<Rightarrow> cache
     \<Rightarrow> (exn + string list \<times> game_rec list) \<times> cache" where
  "for_games L W [] acc s = (Inr acc, s)"
| "for_games L W (game # games) acc s =
     (case game_step L W game acc s of
        (Inl e, s') \<Rightarrow> (Inl e, s')
      | (Inr acc', s') \<Rightarrow> for_games L W games acc' s')"

text \<open>
  Lines 155 to 161: the body of the loop over the days. A day that is not a dict has no
  \<^verbatim>\<open>get\<close>; a day of another date is skipped; the games of a day of the requested date
  are iterated when the key is there.
\<close>

definition day_step ::
  "libs \<Rightarrow> world \<Rightarrow> string \<Rightarrow> json \<Rightarrow> string list \<times> game_rec list \<Rightarrow> cache
     \<Rightarrow> (exn + string list \<times> game_rec list) \<times> cache" where
  "day_step L W date_str day acc s =
     (case day of
        JDict d \<Rightarrow>
          (if dict_get d ''date'' \<noteq> JStr date_str then (Inr acc, s)
           else if map_of d ''games'' \<noteq> None
           then (case py_iter (dict_get d ''games'') of
                   Inl e \<Rightarrow> (Inl e, s)
                 | Inr games \<Rightarrow> for_games L W games acc s)
           else (Inr acc, s))
      | _ \<Rightarrow> (Inl AttributeError, s))"

fun for_days ::
  "libs \<Rightarrow> world \<Rightarrow> string \<Rightarrow> json list \<Rightarrow> string list \<times> game_rec list \<Rightarrow> cache
     \<Rightarrow> (exn + string list \<times> game_rec list) \<times> cache" where
  "for_days L W date_str [] acc s = (Inr acc, s)"
| "for_days L W date_str (day # days) acc s =
     (case day_step L W date_str day acc s of
        (Inl e, s') \<Rightarrow> (Inl e, s')
      | (Inr acc', s') \<Rightarrow> for_days L W date_str days acc' s')"

text \<open>
  Lines 150 to 216: the function from the decoded response on. \<^verbatim>\<open>'gameWeek' in data\<close>
  is evaluated first; \<^verbatim>\<open>data['gameWeek']\<close> on a list or a str raises TypeError.
\<close>

definition fetch_games_data ::
  "libs \<Rightarrow> world \<Rightarrow> string \<Rightarrow> json \<Rightarrow> cache
     \<Rightarrow> (exn + string list \<times> game_rec list) \<times> cache" where
  "fetch_games_data L W date_str data s =
     (case py_in ''gameWeek'' data of
        Inl e \<Rightarrow> (Inl e, s)
      | Inr False \<Rightarrow> (Inr ([], []), s)
      | Inr True \<Rightarrow>
          (case data of
             JDict d \<Rightarrow>
               (if truthy (dict_get d ''gameWeek'')
                then (case py_iter (dict_get d ''gameWeek'') of
                        Inl e \<Rightarrow> (Inl e, s)
                      | Inr days \<Rightarrow> for_days L W date_str days ([], []) s)
                else (Inr ([], []), s))
           | _ \<Rightarrow> (Inl TypeError, s)))"

text \<open>Lines 146 to 148: the URL and the request; a failure of the request is not caught.\<close>

definition schedule_url :: "string \<Rightarrow> string" where
  "schedule_url date_str = ''https://api-web.nhle.com/v1/schedule/'' @ date_str"

definition fetch_games ::
  "libs \<Rightarrow> world \<Rightarrow> string \<Rightarrow> cache \<Rightarrow> (exn + string list \<times> game_rec list) \<times> cache" where
  "fetch_games L W date_str s =
     (case requests_get_json W (schedule_url date_str) of
        Inl e \<Rightarrow> (Inl e, s)
      | Inr data \<Rightarrow> fetch_games_data L W date_str data s)"

text \<open>The summary lines of a result, or the exception.\<close>

definition lines_of ::
  "(exn + string list \<times> game_rec list) \<times> cache \<Rightarrow> exn + string list" where
  "lines_of r = (case fst r of Inl e \<Rightarrow> Inl e | Inr out \<Rightarrow> Inr (fst out))"

subsection \<open>Reading the log\<close>

text \<open>
  The operations of a run from state \<open>s\<close> to state \<open>s'\<close>; a download or a file write
  that failed; a download, whatever its outcome; a printed warning.
\<close>

definition new_events :: "cache \<Rightarrow> cache \<Rightarrow> event list" where
  "new_events s s' = drop (length (log s)) (log s')"

fun io_failure :: "event \<Rightarrow> bool" where
  "io_failure (HttpGet u ok) = (\<not> ok)"
| "io_failure (FileWrite p ok) = (\<not> ok)"
| "io_failure ev = False"

fun is_download :: "event \<Rightarrow> bool" where
  "is_download (HttpGet u ok) = True"
| "is_download ev = False"

fun is_warning :: "event \<Rightarrow> bool" where
  "is_warning (Print m) = prefix ''Warning: '' m"
| "is_warning ev = False"

subsection \<open>What the claims about \<^verbatim>\<open>fetch_games\<close> speak of\<close>

text \<open>
  The games of the response that belong to the requested date, in the order of the
  response: of each day that is a dict with that date and a \<^verbatim>\<open>games\<close> key, what the
  loop iterates.
\<close>

definition day_games :: "string \<Rightarrow> json \<Rightarrow> json list" where
  "day_games date_str day =
     (case day of
        JDict d \<Rightarrow>
          (if dict_get d ''date'' = JStr date_str \<and> map_of d ''games'' \<noteq> None
           then (case py_iter (dict_get d ''games'') of Inr games \<Rightarrow> games | Inl e \<Rightarrow> [])
           else [])
      | _ \<Rightarrow> [])"

definition selected_games :: "string \<Rightarrow> json \<Rightarrow> json list" where
  "selected_games date_str data =
     (case data of
        JDict d \<Rightarrow>
          (case py_iter (dict_get d ''gameWeek'') of
             Inr days \<Rightarrow> concat (map (day_games date_str) days)
           | Inl e \<Rightarrow> [])
      | _ \<Rightarrow> [])"

text \<open>
  The fields of a game that the loop reads: \<^verbatim>\<open>game.get(side, {}).get(key)\<close> and
  \<^verbatim>\<open>game.get('startTimeUTC')\<close>.
\<close>

definition team_field :: "string \<Rightarrow> string \<Rightarrow> json \<Rightarrow> json" where
  "team_field side key game =
     (case game of
        JDict g \<Rightarrow>
          (case dict_get_default g side (JDict []) of JDict t \<Rightarrow> dict_get t key | _ \<Rightarrow> JNull)
      | _ \<Rightarrow> JNull)"

definition game_start :: "json \<Rightarrow> json" where
  "game_start game = (case game of JDict g \<Rightarrow> dict_get g ''startTimeUTC'' | _ \<Rightarrow> JNull)"

text \<open>The summary line and the record of a game, given the two resolved logos.\<close>

definition game_line :: "libs \<Rightarrow> json \<Rightarrow> string" where
  "game_line L game =
     fst (game_entry L (team_field ''awayTeam'' ''abbrev'' game)
            (team_field ''homeTeam'' ''abbrev'' game) (team_field ''awayTeam'' ''score'' game)
            (team_field ''homeTeam'' ''score'' game) (game_start game) None None)"

definition game_record :: "libs \<Rightarrow> json \<Rightarrow> string option \<Rightarrow> string option \<Rightarrow> game_rec" where
  "game_record L game a_logo h_logo =
     snd (game_entry L (team_field ''awayTeam'' ''abbrev'' game)
            (team_field ''homeTeam'' ''abbrev'' game) (team_field ''awayTeam'' ''score'' game)
            (team_field ''homeTeam'' ''score'' game) (game_start game) a_logo h_logo)"

text \<open>
  The local time of the start of a game, when its timestamp is a string that is not empty
  and that parses.
\<close>

definition parsed_start :: "libs \<Rightarrow> json \<Rightarrow> local_time option" where
  "parsed_start L game =
     (case game_start game of
        JStr t \<Rightarrow> (if t = [] then None else to_local L (str_replace ''Z'' ''+00:00'' t))
      | _ \<Rightarrow> None)"

text \<open>
  The exception that ends a run, if any, read off the response alone: of the logo
  resolution of a team object, of the body of the loop over the games, of the first
  element of a list that has one, of the body of the loop over the days, of the function.
\<close>

definition logo_exn :: "libs \<Rightarrow> json \<Rightarrow> exn option" where
  "logo_exn L team_obj =
     (if \<not> truthy (team_abbrev team_obj) \<or> \<not> truthy (team_logo_url team_obj) then None
      else (case team_logo_url team_obj of
              JStr u \<Rightarrow> (case url_ext L u of Inl e \<Rightarrow> Some e | Inr ext \<Rightarrow> None)
            | _ \<Rightarrow> Some AttributeError))"

definition game_exn :: "libs \<Rightarrow> json \<Rightarrow> exn option" where
  "game_exn L game =
     (case game of
        JDict g \<Rightarrow>
          (case dict_get_default g ''awayTeam'' (JDict []) of
             JDict a \<Rightarrow>
               (case dict_get_default g ''homeTeam'' (JDict []) of
                  JDict h \<Rightarrow>
                    (case logo_exn L (JDict a) of
                       Some e \<Rightarrow> Some e
                     | None \<Rightarrow> logo_exn L (JDict h))
                | _ \<Rightarrow> Some AttributeError)
           | _ \<Rightarrow> Some AttributeError)
      | _ \<Rightarrow> Some AttributeError)"

fun first_exn :: "('a \<Rightarrow> exn option) \<Rightarrow> 'a list \<Rightarrow> exn option" where
  "first_exn f [] = None"
| "first_exn f (x # xs) = (case f x of Some e \<Rightarrow> Some e | None \<Rightarrow> first_exn f xs)"

definition day_exn :: "libs \<Rightarrow> string \<Rightarrow> json \<Rightarrow> exn option" where
  "day_exn L date_str day =
     (case day of
        JDict d \<Rightarrow>
          (if dict_get d ''date'' = JStr date_str \<and> map_of d ''games'' \<noteq> None
           then (case py_iter (dict_get d ''games'') of
                   Inl e \<Rightarrow> Some e
                 | Inr games \<Rightarrow> first_exn (game_exn L) games)
           else None)
      | _ \<Rightarrow> Some AttributeError)"

definition fetch_exn :: "libs \<Rightarrow> string \<Rightarrow> json \<Rightarrow> exn option" where
  "fetch_exn L date_str data =
     (case py_in ''gameWeek'' data of
        Inl e \<Rightarrow> Some e
      | Inr False \<Rightarrow> None
      | Inr True \<Rightarrow>
          (case data of
             JDict d \<Rightarrow>
               (if truthy (dict_get d ''gameWeek'')
                then (case py_iter (dict_get d ''gameWeek'') of
                        Inl e \<Rightarrow> Some e
                      | Inr days \<Rightarrow> first_exn (day_exn L date_str) days)
                else None)
           | _ \<Rightarrow> Some TypeError))"

text \<open>A string of the form \<^verbatim>\<open>hh:mm AM\<close> or \<^verbatim>\<open>hh:mm PM\<close> with hh from 01 to 12.\<close>

definition is_digit :: "char \<Rightarrow> bool" where
  "is_digit c = (c \<in> set ''0123456789'')"

definition is_clock12 :: "string \<Rightarrow> bool" where
  "is_clock12 t =
     (case t of
        [h1, h2, c, m1, m2, sp, ap, m] \<Rightarrow>
          [h1, h2] \<in> set [''01'', ''02'', ''03'', ''04'', ''05'', ''06'',
                          ''07'', ''08'', ''09'', ''10'', ''11'', ''12''] \<and>
          c = CHR '':'' \<and> m1 \<in> set ''012345'' \<and> is_digit m2 \<and> sp = CHR '' '' \<and>
          (ap = CHR ''A'' \<or> ap = CHR ''P'') \<and> m = CHR ''M''
      | _ \<Rightarrow> False)"

text \<open>
  The words of the claims about a game and its output. Both scores are present, both are
  absent (\<^verbatim>\<open>None\<close>); the display time of a game is the formatted local time of a
  start that parses, and the placeholder otherwise.
\<close>

definition both_scores_present :: "json \<Rightarrow> bool" where
  "both_scores_present game =
     (team_field ''awayTeam'' ''score'' game \<noteq> JNull \<and>
      team_field ''homeTeam'' ''score'' game \<noteq> JNull)"

definition both_scores_absent :: "json \<Rightarrow> bool" where
  "both_scores_absent game =
     (team_field ''awayTeam'' ''score'' game = JNull \<and>
      team_field ''homeTeam'' ''score'' game = JNull)"

definition display_time :: "libs \<Rightarrow> json \<Rightarrow> string" where
  "display_time L game =
     (case parsed_start L game of None \<Rightarrow> ''TBD'' | Some lt \<Rightarrow> strftime_I_M_p lt)"

text \<open>
  A game with both scores has a record that is not scheduled; a game with no score has a
  scheduled record that carries the display time.
\<close>

definition classified :: "libs \<Rightarrow> json \<Rightarrow> game_rec \<Rightarrow> bool" where
  "classified L game r =
     ((both_scores_present game \<longrightarrow> \<not> is_scheduled r) \<and>
      (both_scores_absent game \<longrightarrow>
         is_scheduled r \<and> start_time r = Some (display_time L game)))"

text \<open>
  A game with exactly one score has a scheduled record without scores.
\<close>

definition one_score_dropped :: "json \<Rightarrow> game_rec \<Rightarrow> bool" where
  "one_score_dropped game r =
     (\<not> both_scores_present game \<and> \<not> both_scores_absent game \<longrightarrow>
        is_scheduled r \<and> away_score r = JNull \<and> home_score r = JNull)"

text \<open>
  A game that lacks a score: its line ends with its display time, which is also the start
  time of its record; that time is the placeholder when the start does not parse, and has
  the form of a 12-hour clock when it parses to an hour below 24 and a minute below 60.
\<close>

definition timed :: "libs \<Rightarrow> json \<Rightarrow> string \<times> game_rec \<Rightarrow> bool" where
  "timed L game out =
     (\<not> both_scores_present game \<longrightarrow>
        fst out = py_str L (team_field ''awayTeam'' ''abbrev'' game) @ '' vs '' @
                  py_str L (team_field ''homeTeam'' ''abbrev'' game) @ '' - '' @
                  display_time L game \<and>
        start_time (snd out) = Some (display_time L game) \<and>
        (case parsed_start L game of
           None \<Rightarrow> display_time L game = ''TBD''
         | Some lt \<Rightarrow> hour lt < 24 \<and> minute lt < 60 \<longrightarrow> is_clock12 (display_time L game)))"

text \<open>
  A day entry of another date, and the response without such entries (a response whose
  \<^verbatim>\<open>gameWeek\<close> is not a list is left as it is).
\<close>

definition other_day :: "string \<Rightarrow> json \<Rightarrow> bool" where
  "other_day date_str day =
     (case day of JDict d \<Rightarrow> dict_get d ''date'' \<noteq> JStr date_str | _ \<Rightarrow> False)"

definition without_other_days :: "string \<Rightarrow> json \<Rightarrow> json" where
  "without_other_days date_str data =
     (case data of
        JDict d \<Rightarrow>
          (case map_of d ''gameWeek'' of
             Some (JList days) \<Rightarrow>
               JDict (AList.update ''gameWeek''
                        (JList (filter (\<lambda>day. \<not> other_day date_str day) days)) d)
           | _ \<Rightarrow> data)
      | _ \<Rightarrow> data)"

subsection \<open>The script \<^verbatim>\<open>convert_logos.py\<close>\<close>

text \<open>
  What the script meets when it runs: which imports succeed, whether \<^verbatim>\<open>input()\<close>
  returns (it raises EOFError on a closed standard input), the names that
  \<^verbatim>\<open>os.listdir(LOGO_DIR)\<close> returns (\<open>None\<close>: it raises, the directory is missing), and
  for each SVG file whether its conversion returns without an exception. A conversion
  that returns has written the PNG.
\<close>

record conv_env =
  has_pillow :: bool
  has_cairosvg :: bool
  has_svglib :: bool
  has_selenium :: bool
  stdin_open :: bool
  listdir :: "string list option"
  conversion_ok :: "string \<Rightarrow> string \<Rightarrow> bool"

text \<open>The outcome of a run: the exit status and the three counters.\<close>

record conv_run =
  exit_status :: nat
  converted :: nat
  skipped :: nat
  failed :: nat

text \<open>Lines 18 to 48: the first converter that imports.\<close>

definition converter_available :: "conv_env \<Rightarrow> string option" where
  "converter_available E =
     (if has_cairosvg E then Some ''cairosvg''
      else if has_svglib E then Some ''svglib''
      else if has_selenium E then Some ''selenium''
      else None)"

definition endswith :: "string \<Rightarrow> string \<Rightarrow> bool" where
  "endswith s sfx = (length sfx \<le> length s \<and> drop (length s - length sfx) s = sfx)"

text \<open>
  Lines 74 to 113: the loop over the SVG files; \<open>present\<close> are the names in the
  directory. The run so far is the accumulator.
\<close>

fun convert_loop ::
  "conv_env \<Rightarrow> string \<Rightarrow> string list \<Rightarrow> string list \<Rightarrow> conv_run \<Rightarrow> conv_run" where
  "convert_loop E cv [] present r = r"
| "convert_loop E cv (svg_file # rest) present r =
     (let png_file = str_replace ''.svg'' ''.png'' svg_file
      in if png_file \<in> set present
         then convert_loop E cv rest present (r\<lparr>skipped := skipped r + 1\<rparr>)
         else if conversion_ok E cv svg_file
         then convert_loop E cv rest (png_file # present) (r\<lparr>converted := converted r + 1\<rparr>)
         else convert_loop E cv rest present (r\<lparr>failed := failed r + 1\<rparr>))"

text \<open>
  The script. \<^verbatim>\<open>sys.exit(n)\<close> ends it with status \<open>n\<close>; an exception that nothing
  catches ends it with status 1; the end of the script is status 0.
\<close>

definition convert_logos :: "conv_env \<Rightarrow> conv_run" where
  "convert_logos E =
     (let r0 = \<lparr> exit_status = 0, converted = 0, skipped = 0, failed = 0 \<rparr>
      in if \<not> has_pillow E then r0\<lparr>exit_status := 1\<rparr>
         else
           (case converter_available E of
              None \<Rightarrow> (if stdin_open E then r0\<lparr>exit_status := 1\<rparr> else r0\<lparr>exit_status := 1\<rparr>)
            | Some cv \<Rightarrow>
                (case listdir E of
                   None \<Rightarrow> r0\<lparr>exit_status := 1\<rparr>
                 | Some names \<Rightarrow>
                     (let svg_files = filter (\<lambda>f. endswith f ''.svg'') names
                      in if svg_files = [] then r0\<lparr>exit_status := 0\<rparr>
                         else
                           (let r = convert_loop E cv svg_files names r0
                            in if stdin_open E then r\<lparr>exit_status := 0\<rparr>
                               else r\<lparr>exit_status := 1\<rparr>)))))"

text \<open>
  A run of the script for the concrete cases: Pillow is there, no converter is, the
  directory holds no SVG file.
\<close>

definition bare_env :: conv_env where
  "bare_env =
     \<lparr> has_pillow = True, has_cairosvg = False, has_svglib = False, has_selenium = False,
       stdin_open = True, listdir = Some [''AAA.png'', ''backround.jpg''],
       conversion_ok = (\<lambda>cv f. True) \<rparr>"

subsection \<open>A concrete machine\<close>

text \<open>
  An instance of the library calls for the concrete runs below: the extension of a URL is
  what follows the last dot of its last segment, paths are joined with a slash, the local
  zone is UTC and one timestamp is known. The machine is offline, has no converter and its
  disk accepts every write.
\<close>

definition demo_ext :: "string \<Rightarrow> string" where
  "demo_ext u =
     (let name = rev (takeWhile (\<lambda>c. c \<noteq> CHR ''/'') (rev u))
      in if CHR ''.'' \<in> set name
         then CHR ''.'' # rev (takeWhile (\<lambda>c. c \<noteq> CHR ''.'') (rev name))
         else [])"

definition demo_libs :: libs where
  "demo_libs =
     \<lparr> str_other = (\<lambda>v. ''?''),
       url_ext = (\<lambda>u. Inr (demo_ext u)),
       LOGO_DIR = ''logos'',
       path_join = (\<lambda>d f. d @ ''/'' @ f),
       to_local =
         (\<lambda>t. if t = ''2024-01-15T19:05:00+00:00'' then Some \<lparr>hour = 19, minute = 5\<rparr>
              else None) \<rparr>"

definition demo_world :: world where
  "demo_world =
     \<lparr> requests_get_json = (\<lambda>u. Inl (LibError ''connection refused'')),
       requests_get = (\<lambda>u. Inl ''connection refused''),
       cairosvg_imported = False,
       cairosvg_svg2png = (\<lambda>svg dest. Inl ''no library called cairo was found''),
       svglib_available = False,
       svglib_render = (\<lambda>svg dest. Inl ''cannot render''),
       write_error = (\<lambda>p. None) \<rparr>"

text \<open>
  Two other machines. On the first, cairosvg is imported, its conversion fails and the
  logo server answers. On the second, the server answers and the disk is full.
\<close>

definition cairo_fails :: world where
  "cairo_fails = demo_world\<lparr>cairosvg_imported := True, requests_get := (\<lambda>u. Inr ''<svg/>'')\<rparr>"

definition disk_full :: world where
  "disk_full = demo_world\<lparr>requests_get := (\<lambda>u. Inr ''png bytes''), write_error := (\<lambda>p. Some ''No space left on device'')\<rparr>"

text \<open>A cache directory that holds the given files, and an empty log.\<close>

definition cache_with :: "(string \<times> string) list \<Rightarrow> cache" where
  "cache_with fs = \<lparr> files = map_of fs, log = [] \<rparr>"

text \<open>Teams, games and responses for the concrete runs.\<close>

definition team :: "string \<Rightarrow> string \<Rightarrow> json" where
  "team a url = JDict [(''abbrev'', JStr a), (''logo'', JStr url)]"

definition scored_game :: "string \<Rightarrow> json \<Rightarrow> string \<Rightarrow> json \<Rightarrow> json \<Rightarrow> json" where
  "scored_game a a_score h h_score start =
     JDict [(''awayTeam'', JDict [(''abbrev'', JStr a), (''score'', a_score)]),
            (''homeTeam'', JDict [(''abbrev'', JStr h), (''score'', h_score)]),
            (''startTimeUTC'', start)]"

definition one_day :: "string \<Rightarrow> json list \<Rightarrow> json" where
  "one_day date games = JDict [(''date'', JStr date), (''games'', JList games)]"

definition response :: "json list \<Rightarrow> json" where
  "response days = JDict [(''gameWeek'', JList days)]"

text \<open>
  A response of two days. The day of the request has a finished game, a game whose start
  parses, a game whose start does not, and a game with one score only.
\<close>

definition week :: json where
  "week =
     response
       [one_day ''2024-01-14'' [scored_game ''XXX'' (JInt 9) ''YYY'' (JInt 9) JNull],
        one_day ''2024-01-15''
          [scored_game ''AAA'' (JInt 3) ''BBB'' (JInt 2) (JStr ''2024-01-15T00:00:00Z''),
           scored_game ''CCC'' JNull ''DDD'' JNull (JStr ''2024-01-15T19:05:00Z''),
           scored_game ''EEE'' JNull ''FFF'' JNull (JStr ''soon''),
           scored_game ''GGG'' (JInt 1) ''HHH'' JNull JNull]]"

text \<open>A response with one game of two teams that have logos.\<close>

definition logo_week :: json where
  "logo_week =
     response
       [one_day ''2024-01-15''
          [JDict [(''awayTeam'', team ''AAA'' ''https://assets.example/AAA.png''),
                  (''homeTeam'', team ''BBB'' ''https://assets.example/BBB.png'')]]]"

text \<open>A machine on which the schedule endpoint answers with the given response.\<close>

definition serving :: "json \<Rightarrow> world \<Rightarrow> world" where
  "serving data W = W\<lparr>requests_get_json := (\<lambda>u. Inr data)\<rparr>"

text \<open>What the fetch of the second day of \<open>week\<close> gives.\<close>

definition week_lines :: "string list" where
  "week_lines = [''AAA vs BBB - 3:2'', ''CCC vs DDD - 07:05 PM'', ''EEE vs FFF - TBD'',
            ''GGG vs HHH - TBD'']"

definition week_recs :: "game_rec list" where
  "week_recs = 
           [\<lparr> away_abbrev = JStr ''AAA'', home_abbrev = JStr ''BBB'',
               away_score = JInt 3, home_score = JInt 2, away_logo = None, home_logo = None,
               is_scheduled = False, start_time = None \<rparr>,
            \<lparr> away_abbrev = JStr ''CCC'', home_abbrev = JStr ''DDD'',
               away_score = JNull, home_score = JNull, away_logo = None, home_logo = None,
               is_scheduled = True, start_time = Some ''07:05 PM'' \<rparr>,
            \<lparr> away_abbrev = JStr ''EEE'', home_abbrev = JStr ''FFF'',
               away_score = JNull, home_score = JNull, away_logo = None, home_logo = None,
               is_scheduled = True, start_time = Some ''TBD'' \<rparr>,
            \<lparr> away_abbrev = JStr ''GGG'', home_abbrev = JStr ''HHH'',
               away_score = JNull, home_score = JNull, away_logo = None, home_logo = None,
               is_scheduled = True, start_time = Some ''TBD'' \<rparr>]"

text \<open>A response with one finished game, and a machine whose logo server answers.\<close>

definition final_week :: json where
  "final_week = response [one_day ''2024-01-15'' [scored_game ''AAA'' (JInt 3) ''BBB'' (JInt 2) JNull]]"

definition online :: world where
  "online = demo_world\<lparr>requests_get := (\<lambda>u. Inr ''png bytes'')\<rparr>"

subsection \<open>A record that belongs to a game\<close>

text \<open>The record of the game, whatever the two logos are.\<close>

definition rec_of :: "libs \<Rightarrow> json \<Rightarrow> game_rec \<Rightarrow> bool" where
  "rec_of L game r = (r = game_record L game (away_logo r) (home_logo r))"

section \<open>Properties\<close>

subsection \<open>The log and the result of \<^verbatim>\<open>ensure_logo_cached\<close>\<close>

lemma log_emit [simp]: "log (emit ev s) = log s @ [ev]"
  and files_emit [simp]: "files (emit ev s) = files s"
  and log_print [simp]: "log (print m s) = log s @ [Print m]"
  and files_print [simp]: "files (print m s) = files s"
  and log_store [simp]: "log (store p c s) = log s"
  and files_store [simp]: "files (store p c s) = (files s)(p \<mapsto> c)"
  by (simp_all add: emit_def print_def store_def)

lemma new_events_append [simp]: "log s' = log s @ evs \<Longrightarrow> new_events s s' = evs"
  by (simp add: new_events_def)

lemma attempt_log:
  "attempt W cv m1 m2 m3 svg dest s = (ok, s') \<Longrightarrow>
     \<exists>m. log s' = log s @ [Print m1, Convert cv dest ok, Print m] \<and> (\<not> ok \<longrightarrow> m = m3 @ (case (case cv of Cairosvg \<Rightarrow> cairosvg_svg2png W svg dest | Svglib \<Rightarrow> svglib_render W svg dest) of Inl e \<Rightarrow> e | Inr _ \<Rightarrow> [])
        \<and> files s' = files s)"
  by (auto simp: attempt_def run_converter_def split: sum.splits converter.splits)

lemma warn_prefix [simp]: "prefix ''Warning: '' (''Warning: '' @ m)"
  by (metis prefixI)

lemma convert_existing_log:
  assumes "convert_existing W a svg png s = (r, s')"
  shows "\<exists>evs. log s' = log s @ evs \<and> \<not> list_ex is_download evs \<and> \<not> list_ex io_failure evs
     \<and> (r = None \<longrightarrow> list_ex is_warning evs \<and> files s' = files s) \<and> (r = None \<or> r = Some png)"
  using assms
  apply (simp add: convert_existing_def Let_def split: if_splits prod.splits)
  apply (auto dest!: attempt_log)
  done


lemma attempt_cairosvg_fails:
  "isl (cairosvg_svg2png W svg dest) \<Longrightarrow> attempt W Cairosvg m1 m2 m3 svg dest s = (ok, s') \<Longrightarrow> \<not> ok"
  by (auto simp: attempt_def run_converter_def split: sum.splits)

lemma attempt_svglib_fails:
  "isl (svglib_render W svg dest) \<Longrightarrow> attempt W Svglib m1 m2 m3 svg dest s = (ok, s') \<Longrightarrow> \<not> ok"
  by (auto simp: attempt_def run_converter_def split: sum.splits)

lemma convert_existing_fails:
  assumes "cairosvg_imported W \<longrightarrow> isl (cairosvg_svg2png W svg png)"
    and "svglib_available W \<longrightarrow> isl (svglib_render W svg png)"
  shows "fst (convert_existing W a svg png s) = None"
  using assms
  by (auto simp: convert_existing_def Let_def split: prod.splits
      dest: attempt_cairosvg_fails attempt_svglib_fails)

lemma write_file_log:
  assumes "write_file W p c s = (r, s')"
  shows "log s' = log s @ [FileWrite p (r = None)]"
proof (cases "write_error W p")
  case None
  with assms have "r = None" "s' = emit (FileWrite p True) (store p c s)"
    by (simp_all add: write_file_def)
  then show ?thesis by simp
next
  case (Some m)
  with assms have "r = Some m" "s' = emit (FileWrite p False) s"
    by (simp_all add: write_file_def)
  then show ?thesis by simp
qed

lemma save_original_log:
  assumes "save_original L W a ext c s = (r, s')"
  shows "\<exists>evs. log s' = log s @ evs \<and> (list_ex io_failure evs \<longrightarrow> r = None) \<and> (lower ext = ''.svg'' \<longrightarrow> r = None)"
  using assms
  by (auto simp: save_original_def Let_def split: prod.splits option.splits dest!: write_file_log)

lemma convert_downloaded_log:
  assumes "convert_downloaded L W a c png s = (ok, s')"
  shows "\<exists>evs. log s' = log s @ evs \<and> (list_ex io_failure evs \<longrightarrow> \<not> ok)"
  using assms
  apply (simp add: convert_downloaded_def Let_def split: if_splits prod.splits option.splits)
  apply (auto dest!: attempt_log write_file_log)
  done

lemma download_logo_log:
  assumes "download_logo L W a u ext png s = (r, s')"
  shows "\<exists>evs. log s' = log s @ evs \<and> (list_ex io_failure evs \<longrightarrow> r = None)"
proof (cases "requests_get W u")
  case (Inl m)
  with assms show ?thesis by (auto simp: download_logo_def)
next
  case (Inr content)
  let ?s0 = "emit (HttpGet u True) s"
  show ?thesis
  proof (cases "lower ext = ''.svg''")
    case True
    obtain ok s1 where cd: "convert_downloaded L W a content png ?s0 = (ok, s1)"
      by (cases "convert_downloaded L W a content png ?s0")
    from convert_downloaded_log[OF cd] obtain e1 where
      e1: "log s1 = log ?s0 @ e1" "list_ex io_failure e1 \<longrightarrow> \<not> ok" by blast
    show ?thesis
    proof (cases ok)
      case True
      with assms Inr \<open>lower ext = ''.svg''\<close> cd have "r = Some png" "s' = s1"
        by (auto simp: download_logo_def)
      with e1 True show ?thesis by auto
    next
      case False
      with assms Inr \<open>lower ext = ''.svg''\<close> cd have so: "save_original L W a ext content s1 = (r, s')"
        by (auto simp: download_logo_def)
      from save_original_log[OF so] \<open>lower ext = ''.svg''\<close> obtain e2 where
        "log s' = log s1 @ e2" "r = None" by blast
      with e1 show ?thesis by auto
    qed
  next
    case False
    with assms Inr have so: "save_original L W a ext content ?s0 = (r, s')"
      by (auto simp: download_logo_def)
    from save_original_log[OF so] obtain e2 where
      "log s' = log ?s0 @ e2" "list_ex io_failure e2 \<longrightarrow> r = None" by blast
    then show ?thesis by auto
  qed
qed

lemma ensure_log:
  assumes "ensure_logo_cached L W t s = (r, s')"
  shows "\<exists>evs. log s' = log s @ evs \<and> (list_ex io_failure evs \<longrightarrow> r = Inr None)"
  using assms
  apply (simp add: ensure_logo_cached_def Let_def split: if_splits json.splits sum.splits option.splits prod.splits)
  apply (auto dest!: convert_existing_log download_logo_log)
  done

subsection \<open>The exception and the output of \<^verbatim>\<open>fetch_games\<close>\<close>

lemma ensure_raises:
  "logo_exn L t = Some e \<Longrightarrow> ensure_logo_cached L W t s = (Inl e, s)"
  by (auto simp: ensure_logo_cached_def logo_exn_def Let_def split: if_splits json.splits sum.splits)

lemma ensure_returns:
  "logo_exn L t = None \<Longrightarrow> \<exists>r s'. ensure_logo_cached L W t s = (Inr r, s')"
  by (auto simp: ensure_logo_cached_def logo_exn_def Let_def split: if_splits json.splits sum.splits option.splits prod.splits)

lemma game_step_raises:
  assumes "game_exn L g = Some e"
  shows "fst (game_step L W g acc s) = Inl e"
proof (cases g)
  case (JDict gd)
  show ?thesis
  proof (cases "dict_get_default gd ''awayTeam'' (JDict [])")
    case a: (JDict a)
    show ?thesis
    proof (cases "dict_get_default gd ''homeTeam'' (JDict [])")
      case h: (JDict h)
      show ?thesis
      proof (cases "logo_exn L (JDict a)")
        case (Some e')
        with assms JDict a h have "e' = e" by (simp add: game_exn_def)
        with Some ensure_raises[of L "JDict a" e W s] JDict a h show ?thesis
          by (simp add: game_step_def)
      next
        case None
        with assms JDict a h have hx: "logo_exn L (JDict h) = Some e" by (simp add: game_exn_def)
        from ensure_returns[OF None, of W s] obtain r s1 where
          "ensure_logo_cached L W (JDict a) s = (Inr r, s1)" by blast
        with ensure_raises[OF hx, of W s1] JDict a h show ?thesis
          by (simp add: game_step_def)
      qed
    qed (use assms JDict a in \<open>simp_all add: game_exn_def game_step_def\<close>)
  qed (use assms JDict in \<open>simp_all add: game_exn_def game_step_def\<close>)
qed (use assms in \<open>simp_all add: game_exn_def game_step_def\<close>)

lemma game_step_returns:
  assumes "game_exn L g = None"
  shows "\<exists>al hl. fst (game_step L W g acc s) =
           Inr (fst acc @ [game_line L g], snd acc @ [game_record L g al hl])"
proof -
  from assms obtain gd a h where g: "g = JDict gd"
    and a: "dict_get_default gd ''awayTeam'' (JDict []) = JDict a"
    and h: "dict_get_default gd ''homeTeam'' (JDict []) = JDict h"
    by (auto simp: game_exn_def split: json.splits)
  with assms have la: "logo_exn L (JDict a) = None" and lh: "logo_exn L (JDict h) = None"
    by (auto simp: game_exn_def split: option.splits)
  from ensure_returns[OF la, of W s] obtain al s1 where
    ea: "ensure_logo_cached L W (JDict a) s = (Inr al, s1)" by blast
  from ensure_returns[OF lh, of W s1] obtain hl s2 where
    eh: "ensure_logo_cached L W (JDict h) s1 = (Inr hl, s2)" by blast
  have "fst (game_step L W g acc s) =
           Inr (fst acc @ [game_line L g], snd acc @ [game_record L g al hl])"
    using g a h ea eh
    by (simp add: game_step_def game_line_def game_record_def team_field_def game_start_def
        game_entry_def Let_def split: prod.splits)
  then show ?thesis by blast
qed

lemma game_record_logos:
  "away_logo (game_record L g al hl) = al" "home_logo (game_record L g al hl) = hl"
  by (simp_all add: game_record_def game_entry_def Let_def)

lemma rec_of_game_record: "rec_of L g (game_record L g al hl)"
  by (simp add: rec_of_def game_record_logos)

lemma for_games_raises:
  "first_exn (game_exn L) gs = Some e \<Longrightarrow> fst (for_games L W gs acc s) = Inl e"
proof (induction gs arbitrary: acc s)
  case Nil
  then show ?case by simp
next
  case (Cons g gs)
  show ?case
  proof (cases "game_exn L g")
    case None
    from game_step_returns[OF None, of W acc s] obtain acc' s' where
      "game_step L W g acc s = (Inr acc', s')" by (cases "game_step L W g acc s") auto
    with Cons None show ?thesis by simp
  next
    case (Some e')
    with Cons.prems have "e' = e" by simp
    with game_step_raises[OF Some, of W acc s] show ?thesis
      by (cases "game_step L W g acc s") auto
  qed
qed

lemma for_games_returns:
  "first_exn (game_exn L) gs = None \<Longrightarrow>
     \<exists>recs. fst (for_games L W gs acc s) = Inr (fst acc @ map (game_line L) gs, snd acc @ recs)
        \<and> list_all2 (rec_of L) gs recs"
proof (induction gs arbitrary: acc s)
  case Nil
  then show ?case by simp
next
  case (Cons g gs)
  from Cons.prems have g: "game_exn L g = None" and gs: "first_exn (game_exn L) gs = None"
    by (auto split: option.splits)
  from game_step_returns[OF g, of W acc s] obtain al hl s' where
    st: "game_step L W g acc s = (Inr (fst acc @ [game_line L g], snd acc @ [game_record L g al hl]), s')"
    by (cases "game_step L W g acc s") auto
  from Cons.IH[OF gs, of "(fst acc @ [game_line L g], snd acc @ [game_record L g al hl])" s']
  obtain recs where
    "fst (for_games L W gs (fst acc @ [game_line L g], snd acc @ [game_record L g al hl]) s') =
       Inr (fst acc @ game_line L g # map (game_line L) gs, snd acc @ game_record L g al hl # recs)"
    "list_all2 (rec_of L) gs recs" by auto
  with st have "fst (for_games L W (g # gs) acc s) =
       Inr (fst acc @ map (game_line L) (g # gs), snd acc @ (game_record L g al hl # recs))
       \<and> list_all2 (rec_of L) (g # gs) (game_record L g al hl # recs)"
    by (auto simp: rec_of_game_record)
  then show ?case by blast
qed


lemma day_step_raises:
  assumes "day_exn L d day = Some e"
  shows "fst (day_step L W d day acc s) = Inl e"
proof (cases day)
  case (JDict dd)
  with assms have m: "dict_get dd ''date'' = JStr d" "map_of dd ''games'' \<noteq> None"
    by (auto simp: day_exn_def split: if_splits)
  show ?thesis
  proof (cases "py_iter (dict_get dd ''games'')")
    case (Inl e')
    with assms JDict m show ?thesis by (auto simp: day_exn_def day_step_def)
  next
    case (Inr gs)
    with assms JDict m have "first_exn (game_exn L) gs = Some e" by (auto simp: day_exn_def)
    from for_games_raises[OF this, of W acc s] JDict m Inr show ?thesis
      by (auto simp: day_step_def)
  qed
qed (use assms in \<open>simp_all add: day_exn_def day_step_def\<close>)

lemma day_step_returns:
  assumes "day_exn L d day = None"
  shows "\<exists>recs. fst (day_step L W d day acc s) =
            Inr (fst acc @ map (game_line L) (day_games d day), snd acc @ recs)
          \<and> list_all2 (rec_of L) (day_games d day) recs"
proof -
  from assms obtain dd where day: "day = JDict dd"
    by (auto simp: day_exn_def split: json.splits)
  show ?thesis
  proof (cases "dict_get dd ''date'' = JStr d \<and> map_of dd ''games'' \<noteq> None")
    case False
    with day have "fst (day_step L W d day acc s) = Inr acc" "day_games d day = []"
      by (auto simp: day_step_def day_games_def)
    then show ?thesis by simp
  next
    case True
    with assms day obtain gs where it: "py_iter (dict_get dd ''games'') = Inr gs"
      and ex: "first_exn (game_exn L) gs = None"
      by (auto simp: day_exn_def split: sum.splits)
    from True day it have "day_games d day = gs" "day_step L W d day acc s = for_games L W gs acc s"
      by (auto simp: day_games_def day_step_def)
    with for_games_returns[OF ex, of W acc s] show ?thesis by simp
  qed
qed

lemma for_days_raises:
  "first_exn (day_exn L d) days = Some e \<Longrightarrow> fst (for_days L W d days acc s) = Inl e"
proof (induction days arbitrary: acc s)
  case Nil
  then show ?case by simp
next
  case (Cons day days)
  show ?case
  proof (cases "day_exn L d day")
    case None
    from day_step_returns[OF None, of W acc s] obtain acc' s' where
      "day_step L W d day acc s = (Inr acc', s')" by (cases "day_step L W d day acc s") auto
    with Cons None show ?thesis by simp
  next
    case (Some e')
    with Cons.prems have "e' = e" by simp
    with day_step_raises[OF Some, of W acc s] show ?thesis
      by (cases "day_step L W d day acc s") auto
  qed
qed

lemma for_days_returns:
  "first_exn (day_exn L d) days = None \<Longrightarrow>
     \<exists>recs. fst (for_days L W d days acc s) =
               Inr (fst acc @ map (game_line L) (concat (map (day_games d) days)), snd acc @ recs)
        \<and> list_all2 (rec_of L) (concat (map (day_games d) days)) recs"
proof (induction days arbitrary: acc s)
  case Nil
  then show ?case by simp
next
  case (Cons day days)
  from Cons.prems have g: "day_exn L d day = None" and gs: "first_exn (day_exn L d) days = None"
    by (auto split: option.splits)
  from day_step_returns[OF g, of W acc s] obtain r1 s' where
    st: "day_step L W d day acc s =
           (Inr (fst acc @ map (game_line L) (day_games d day), snd acc @ r1), s')"
    and r1: "list_all2 (rec_of L) (day_games d day) r1"
    by (cases "day_step L W d day acc s") auto
  from Cons.IH[OF gs, of "(fst acc @ map (game_line L) (day_games d day), snd acc @ r1)" s']
  obtain r2 where
    "fst (for_days L W d days (fst acc @ map (game_line L) (day_games d day), snd acc @ r1) s') =
       Inr (fst acc @ map (game_line L) (day_games d day) @
              map (game_line L) (concat (map (day_games d) days)), snd acc @ r1 @ r2)"
    and r2: "list_all2 (rec_of L) (concat (map (day_games d) days)) r2" by auto
  with st have "fst (for_days L W d (day # days) acc s) =
       Inr (fst acc @ map (game_line L) (concat (map (day_games d) (day # days))),
            snd acc @ (r1 @ r2))"
    by simp
  moreover from r1 r2 have "list_all2 (rec_of L) (concat (map (day_games d) (day # days))) (r1 @ r2)"
    by (simp add: list_all2_appendI)
  ultimately show ?case by blast
qed

lemma falsy_iter: "\<not> truthy v \<Longrightarrow> (case py_iter v of Inr days \<Rightarrow> concat (map f days) | Inl e \<Rightarrow> []) = []"
  by (cases v) auto

lemma fetch_raises:
  assumes "fetch_exn L d data = Some e"
  shows "fst (fetch_games_data L W d data s) = Inl e"
proof (cases "py_in ''gameWeek'' data")
  case (Inl e')
  with assms show ?thesis by (simp add: fetch_exn_def fetch_games_data_def)
next
  case (Inr b)
  with assms have b: "b" by (cases b) (auto simp: fetch_exn_def)
  show ?thesis
  proof (cases data)
    case (JDict dd)
    with assms Inr b have t: "truthy (dict_get dd ''gameWeek'')"
      by (auto simp: fetch_exn_def split: if_splits)
    show ?thesis
    proof (cases "py_iter (dict_get dd ''gameWeek'')")
      case (Inl e')
      with assms JDict t b \<open>py_in ''gameWeek'' data = Inr b\<close> show ?thesis
        by (auto simp: fetch_exn_def fetch_games_data_def)
    next
      case days: (Inr days)
      with assms JDict t b Inr have "first_exn (day_exn L d) days = Some e"
        by (auto simp: fetch_exn_def)
      from for_days_raises[OF this, of W "([], [])" s] JDict t b Inr days show ?thesis
        by (auto simp: fetch_games_data_def)
    qed
  qed (use assms Inr b in \<open>auto simp: fetch_exn_def fetch_games_data_def\<close>)
qed

lemma fetch_returns:
  assumes "fetch_exn L d data = None"
  shows "\<exists>recs. fst (fetch_games_data L W d data s) =
            Inr (map (game_line L) (selected_games d data), recs)
          \<and> list_all2 (rec_of L) (selected_games d data) recs"
proof -
  from assms obtain b where pin: "py_in ''gameWeek'' data = Inr b"
    by (auto simp: fetch_exn_def split: sum.splits)
  show ?thesis
  proof (cases b)
    case False
    with pin have "fst (fetch_games_data L W d data s) = Inr ([], [])"
      by (simp add: fetch_games_data_def)
    moreover from pin False have "selected_games d data = []"
      by (cases data) (auto simp: selected_games_def dict_get_def)
    ultimately show ?thesis by simp
  next
    case True
    with assms pin obtain dd where data: "data = JDict dd"
      by (cases data) (auto simp: fetch_exn_def)
    show ?thesis
    proof (cases "truthy (dict_get dd ''gameWeek'')")
      case False
      with pin True data have "fst (fetch_games_data L W d data s) = Inr ([], [])"
        by (simp add: fetch_games_data_def)
      moreover from False data have "selected_games d data = []"
        by (simp add: selected_games_def falsy_iter)
      ultimately show ?thesis by simp
    next
      case t: True
      with assms pin True data obtain days where it: "py_iter (dict_get dd ''gameWeek'') = Inr days"
        and ex: "first_exn (day_exn L d) days = None"
        by (auto simp: fetch_exn_def split: sum.splits)
      from pin True data t it have
        "fetch_games_data L W d data s = for_days L W d days ([], []) s"
        "selected_games d data = concat (map (day_games d) days)"
        by (auto simp: fetch_games_data_def selected_games_def)
      with for_days_returns[OF ex, of W "([], [])" s] show ?thesis by simp
    qed
  qed
qed

lemma fetch_lines: "lines_of (fetch_games_data L W d data s) =
    (case fetch_exn L d data of Some e \<Rightarrow> Inl e | None \<Rightarrow> Inr (map (game_line L) (selected_games d data)))"
proof (cases "fetch_exn L d data")
  case None
  from fetch_returns[OF None, of W s] show ?thesis using None by (auto simp: lines_of_def)
next
  case (Some e)
  from fetch_raises[OF Some, of W s] show ?thesis using Some by (auto simp: lines_of_def)
qed

lemma fetch_Inr:
  assumes "fst (fetch_games_data L W d data s) = Inr (lines, recs)"
  shows "lines = map (game_line L) (selected_games d data) \<and> list_all2 (rec_of L) (selected_games d data) recs"
proof (cases "fetch_exn L d data")
  case None
  from fetch_returns[OF None, of W s] assms show ?thesis by auto
next
  case (Some e)
  from fetch_raises[OF Some, of W s] assms show ?thesis by simp
qed

subsection \<open>Days of another date; the clock format\<close>

lemma day_step_other: "other_day d day \<Longrightarrow> day_step L W d day acc s = (Inr acc, s)"
  by (auto simp: other_day_def day_step_def split: json.splits)

lemma for_days_filter:
  "for_days L W d (filter (\<lambda>day. \<not> other_day d day) days) acc s = for_days L W d days acc s"
  by (induction days arbitrary: acc s) (auto simp: day_step_other split: prod.splits sum.splits)

lemma str_nat_small: "n < 10 \<Longrightarrow> str_nat n = [digit_char n]"
  by (simp add: str_nat.simps)

lemma two_digits_eq:
  assumes "n < 100"
  shows "two_digits n = [digit_char (n div 10), digit_char (n mod 10)]"
proof (cases "n < 10")
  case True
  then show ?thesis by (simp add: two_digits_def str_nat_small digit_char_def)
next
  case False
  with assms have "n div 10 < 10" by arith
  with False show ?thesis
    by (simp add: two_digits_def str_nat.simps[of n] str_nat_small)
qed

lemma is_digit_digit_char: "is_digit (digit_char k)"
  unfolding is_digit_def digit_char_def by (intro nth_mem) simp

lemma tens_digit: 
  assumes "m < 60" shows "digit_char (m div 10) \<in> set ''012345''"
proof -
  from assms have "m div 10 = 0 \<or> m div 10 = 1 \<or> m div 10 = 2 \<or> m div 10 = 3 \<or> m div 10 = 4 \<or> m div 10 = 5"
    by arith
  then show ?thesis by (auto simp: digit_char_def)
qed

lemma hour_digits:
  assumes "1 \<le> h" "h \<le> 12"
  shows "two_digits h \<in> set [''01'', ''02'', ''03'', ''04'', ''05'', ''06'',
                          ''07'', ''08'', ''09'', ''10'', ''11'', ''12'']"
proof -
  from assms have "h = 1 \<or> h = 2 \<or> h = 3 \<or> h = 4 \<or> h = 5 \<or> h = 6 \<or> h = 7 \<or> h = 8 \<or> h = 9
     \<or> h = 10 \<or> h = 11 \<or> h = 12" by arith
  then show ?thesis
    by (elim disjE) (simp_all add: two_digits_eq digit_char_def)
qed

lemma clock12:
  assumes "hour t < 24" "minute t < 60"
  shows "is_clock12 (strftime_I_M_p t)"
proof -
  define h where "h = (if hour t mod 12 = 0 then 12 else hour t mod 12)"
  have "1 \<le> h" "h \<le> 12" by (auto simp: h_def)
  from hour_digits[OF this] have hh: "two_digits h \<in> set [''01'', ''02'', ''03'', ''04'', ''05'', ''06'',
                          ''07'', ''08'', ''09'', ''10'', ''11'', ''12'']" .
  from \<open>h \<le> 12\<close> have h2: "two_digits h = [digit_char (h div 10), digit_char (h mod 10)]"
    by (simp add: two_digits_eq)
  from assms have m2: "two_digits (minute t) = [digit_char (minute t div 10), digit_char (minute t mod 10)]"
    by (simp add: two_digits_eq)
  have "strftime_I_M_p t = two_digits h @ '':'' @ two_digits (minute t) @ '' '' @ (if hour t < 12 then ''AM'' else ''PM'')"
    by (simp add: strftime_I_M_p_def h_def)
  then show ?thesis
    using hh tens_digit[OF assms(2)] is_digit_digit_char[of "minute t mod 10"]
    unfolding h2 m2 by (simp add: is_clock12_def)
qed

subsection \<open>From the exception and the output to the claims' words\<close>

lemma fetch_games_served:
  "requests_get_json W (schedule_url d) = Inr data \<Longrightarrow>
     fetch_games L W d s = fetch_games_data L W d data s"
  by (simp add: fetch_games_def)

lemma time_display_eq: "time_display L (game_start game) = display_time L game"
  by (cases "game_start game") (auto simp: time_display_def display_time_def parsed_start_def)

lemma rec_of_scored:
  assumes "rec_of L game r" "both_scores_present game"
  shows "\<not> is_scheduled r" "start_time r = None"
    "away_score r = team_field ''awayTeam'' ''score'' game"
    "home_score r = team_field ''homeTeam'' ''score'' game"
  using assms
  by (auto simp: rec_of_def game_record_def game_entry_def both_scores_present_def Let_def
      dest: arg_cong[where f = is_scheduled] arg_cong[where f = start_time]
        arg_cong[where f = away_score] arg_cong[where f = home_score])

lemma rec_of_unscored:
  assumes "rec_of L game r" "\<not> both_scores_present game"
  shows "is_scheduled r" "start_time r = Some (display_time L game)"
    "away_score r = JNull" "home_score r = JNull"
  using assms
  by (auto simp: rec_of_def game_record_def game_entry_def both_scores_present_def Let_def
      time_display_eq
      dest: arg_cong[where f = is_scheduled] arg_cong[where f = start_time]
        arg_cong[where f = away_score] arg_cong[where f = home_score])

lemma game_line_unscored:
  "\<not> both_scores_present game \<Longrightarrow>
     game_line L game = py_str L (team_field ''awayTeam'' ''abbrev'' game) @ '' vs '' @
                  py_str L (team_field ''homeTeam'' ''abbrev'' game) @ '' - '' @
                  display_time L game"
  by (auto simp: game_line_def game_entry_def both_scores_present_def Let_def time_display_eq)

lemma game_line_scored:
  "both_scores_present game \<Longrightarrow>
     game_line L game = py_str L (team_field ''awayTeam'' ''abbrev'' game) @ '' vs '' @
                  py_str L (team_field ''homeTeam'' ''abbrev'' game) @ '' - '' @
                  py_str L (team_field ''awayTeam'' ''score'' game) @ '':'' @
                  py_str L (team_field ''homeTeam'' ''score'' game)"
  by (auto simp: game_line_def game_entry_def both_scores_present_def Let_def)

lemma py_str_to_local [simp]: "py_str (L\<lparr>to_local := f\<rparr>) v = py_str L v"
  by (cases v) simp_all

lemma logo_exn_to_local [simp]: "logo_exn (L\<lparr>to_local := f\<rparr>) = logo_exn L"
  by (rule ext) (simp add: logo_exn_def cong: json.case_cong sum.case_cong)

lemma game_exn_to_local [simp]: "game_exn (L\<lparr>to_local := f\<rparr>) = game_exn L"
  by (rule ext) (simp add: game_exn_def cong: json.case_cong option.case_cong)

lemma day_exn_to_local [simp]: "day_exn (L\<lparr>to_local := f\<rparr>) = day_exn L"
  by (intro ext) (simp add: day_exn_def cong: json.case_cong sum.case_cong if_cong)

lemma fetch_exn_to_local [simp]: "fetch_exn (L\<lparr>to_local := f\<rparr>) = fetch_exn L"
  by (intro ext) (simp add: fetch_exn_def cong: json.case_cong sum.case_cong bool.case_cong if_cong)

lemma fetch_isl: "isl (fst (fetch_games_data L W d data s)) = (fetch_exn L d data \<noteq> None)"
proof (cases "fetch_exn L d data")
  case None
  from fetch_returns[OF None, of W s] None show ?thesis by auto
next
  case (Some e)
  from fetch_raises[OF Some, of W s] Some show ?thesis by simp
qed

lemma timed_rec:
  assumes "rec_of L game r"
  shows "timed L game (game_line L game, r)"
proof (cases "both_scores_present game")
  case True
  then show ?thesis by (simp add: timed_def)
next
  case False
  have "is_clock12 (display_time L game)"
    if "parsed_start L game = Some lt" "hour lt < 24" "minute lt < 60" for lt
    using that clock12[of lt] by (simp add: display_time_def)
  moreover have "display_time L game = ''TBD''" if "parsed_start L game = None"
    using that by (simp add: display_time_def)
  ultimately show ?thesis
    using False rec_of_unscored(2)[OF assms False] game_line_unscored[OF False, of L]
    by (auto simp: timed_def split: option.splits)
qed

subsection \<open>The concrete responses\<close>

lemmas fetch_defs = fetch_games_data_def dict_get_def dict_get_default_def week_def response_def
  one_day_def scored_game_def day_step_def game_step_def game_entry_def time_display_def
  ensure_logo_cached_def team_abbrev_def team_logo_url_def py_or_def Let_def
  strftime_I_M_p_def two_digits_def str_nat.simps digit_char_def str_int_def demo_libs_def

lemma week_run:
  "fetch_games_data demo_libs W ''2024-01-15'' week s = (Inr (week_lines, week_recs), s)"
  by (simp add: fetch_defs week_lines_def week_recs_def)

lemma served: "requests_get_json (serving data W) u = Inr data"
  by (simp add: serving_def)

lemma week_fetch:
  "fst (fetch_games demo_libs (serving week demo_world) ''2024-01-15'' (cache_with [])) =
     Inr (week_lines, week_recs)"
  by (simp add: fetch_games_served[OF served] week_run)

lemma final_run:
  "fetch_games_data demo_libs W ''2024-01-15'' final_week s =
     (Inr ([''AAA vs BBB - 3:2''],
           [\<lparr> away_abbrev = JStr ''AAA'', home_abbrev = JStr ''BBB'',
               away_score = JInt 3, home_score = JInt 2, away_logo = None, home_logo = None,
               is_scheduled = False, start_time = None \<rparr>]), s)"
  by (simp add: fetch_defs final_week_def)

lemma final_selected:
  "selected_games ''2024-01-15'' final_week = [scored_game ''AAA'' (JInt 3) ''BBB'' (JInt 2) JNull]"
  by (simp add: selected_games_def day_games_def final_week_def response_def one_day_def dict_get_def)

section \<open>The claims\<close>

text \<open>The definitions that a concrete run of \<^verbatim>\<open>ensure_logo_cached\<close> unfolds.\<close>

lemmas run_defs = ensure_logo_cached_def team_abbrev_def team_logo_url_def dict_get_def py_or_def
  os_path_exists_def cache_with_def demo_libs_def demo_world_def demo_ext_def png_path_of_def
  logo_path_def download_logo_def save_original_def write_file_def convert_existing_def
  convert_downloaded_def attempt_def run_converter_def emit_def print_def store_def
  lower_def lower_char_def team_def Let_def new_events_def logo_exn_def

subsection \<open>C1: a cached PNG is returned and the cache is left as it is\<close>

text \<open>
  Claim C1, as amended. Whenever the file \<^verbatim>\<open><abbrev>.png\<close> of the team's abbreviation
  exists in the cache directory, \<^verbatim>\<open>ensure_logo_cached\<close> leaves the state as it is: no
  download, no conversion, no write, no printed line. It returns the path of that file
  when the team object has an abbreviation and a logo URL that \<^verbatim>\<open>urlparse\<close> accepts,
  \<^verbatim>\<open>None\<close> when the abbreviation or the URL is missing, and it raises what
  \<^verbatim>\<open>urlparse\<close> raises otherwise.
\<close>

theorem cached_png_returned:
  assumes "os_path_exists s (png_path_of L (team_abbrev t))"
  shows "ensure_logo_cached L W t s =
           (case logo_exn L t of
              Some e \<Rightarrow> Inl e
            | None \<Rightarrow>
                if truthy (team_abbrev t) \<and> truthy (team_logo_url t)
                then Inr (Some (png_path_of L (team_abbrev t)))
                else Inr None,
            s)"
  using assms
  by (auto simp: ensure_logo_cached_def logo_exn_def Let_def split: json.splits sum.splits)

text \<open>
  The theorem at a team whose PNG is cached: the path is returned, the state is the same.
\<close>

theorem cached_png_returned_witness:
  "os_path_exists (cache_with [(''logos/AAA.png'', ''png'')]) ''logos/AAA.png'' \<and>
   ensure_logo_cached demo_libs demo_world (team ''AAA'' ''https://assets.example/AAA.svg'')
       (cache_with [(''logos/AAA.png'', ''png'')]) =
     (Inr (Some ''logos/AAA.png''), cache_with [(''logos/AAA.png'', ''png'')])"
proof -
  let ?t = "team ''AAA'' ''https://assets.example/AAA.svg''"
  let ?s = "cache_with [(''logos/AAA.png'', ''png'')]"
  have p: "png_path_of demo_libs (team_abbrev ?t) = ''logos/AAA.png''"
    by (simp add: png_path_of_def logo_path_def team_abbrev_def team_def dict_get_def demo_libs_def)
  have h: "os_path_exists ?s (png_path_of demo_libs (team_abbrev ?t))"
    unfolding p by (simp add: os_path_exists_def cache_with_def)
  have e: "logo_exn demo_libs ?t = None" "truthy (team_abbrev ?t)" "truthy (team_logo_url ?t)"
    by (simp_all add: logo_exn_def team_abbrev_def team_logo_url_def team_def dict_get_def
        py_or_def demo_libs_def)
  from cached_png_returned[OF h, of demo_world] h show ?thesis
    unfolding p by (simp add: e)
qed

text \<open>
  The claim as it is written fails twice. A team object without a logo URL gets
  \<^verbatim>\<open>None\<close> although its PNG is cached. And a cached JPEG, which is a raster file, is
  not looked for: the asset is downloaded again and the file is overwritten.
\<close>

theorem cached_raster_counterexample:
  "os_path_exists (cache_with [(''logos/AAA.png'', ''png'')]) ''logos/AAA.png'' \<and>
   fst (ensure_logo_cached demo_libs demo_world (JDict [(''abbrev'', JStr ''AAA'')])
          (cache_with [(''logos/AAA.png'', ''png'')])) = Inr None \<and>
   os_path_exists (cache_with [(''logos/AAA.jpg'', ''old'')]) ''logos/AAA.jpg'' \<and>
   ensure_logo_cached demo_libs (demo_world\<lparr>requests_get := (\<lambda>u. Inr ''new'')\<rparr>)
       (team ''AAA'' ''https://assets.example/AAA.jpg'') (cache_with [(''logos/AAA.jpg'', ''old'')]) =
     (Inr (Some ''logos/AAA.jpg''),
      \<lparr> files = [''logos/AAA.jpg'' \<mapsto> ''new''],
        log = [HttpGet ''https://assets.example/AAA.jpg'' True, FileWrite ''logos/AAA.jpg'' True] \<rparr>)"
  by (simp add: run_defs)

subsection \<open>C4: a cached SVG that no converter converts\<close>

text \<open>
  Claim C4, as amended. Let the team object have an abbreviation that is not empty and a
  logo URL that is a string, not empty, which \<^verbatim>\<open>urlparse\<close> accepts. When the PNG is not
  cached, a cached SVG file exists for the abbreviation and every available converter
  attempt fails (or no converter is available), \<^verbatim>\<open>ensure_logo_cached\<close> prints a
  warning and returns \<^verbatim>\<open>None\<close>: it stops there, without downloading the source asset.
\<close>

theorem cached_svg_conversion_fails:
  assumes "truthy (team_abbrev t)" and "team_logo_url t = JStr u" and "u \<noteq> []"
    and "url_ext L u = Inr ext"
    and "\<not> os_path_exists s (png_path_of L (team_abbrev t))"
    and "files s (logo_path L (py_str L (team_abbrev t)) ''.svg'') = Some svg"
    and "cairosvg_imported W \<longrightarrow> isl (cairosvg_svg2png W svg (png_path_of L (team_abbrev t)))"
    and "svglib_available W \<longrightarrow> isl (svglib_render W svg (png_path_of L (team_abbrev t)))"
  shows "fst (ensure_logo_cached L W t s) = Inr None \<and>
         list_ex is_warning (new_events s (snd (ensure_logo_cached L W t s))) \<and>
         \<not> list_ex is_download (new_events s (snd (ensure_logo_cached L W t s)))"
proof -
  let ?a = "py_str L (team_abbrev t)" and ?png = "png_path_of L (team_abbrev t)"
  obtain r s' where ce: "convert_existing W ?a svg ?png s = (r, s')"
    by (cases "convert_existing W ?a svg ?png s")
  from convert_existing_fails[OF assms(7,8), of ?a s] ce have r: "r = None" by simp
  from assms(1-6) ce have e: "ensure_logo_cached L W t s = (Inr r, s')"
    by (simp add: ensure_logo_cached_def Let_def)
  from convert_existing_log[OF ce] r obtain evs where
    "log s' = log s @ evs" "\<not> list_ex is_download evs" "list_ex is_warning evs"
    by blast
  with e r show ?thesis by simp
qed

text \<open>
  The theorem on the machine whose cairosvg fails, with \<^verbatim>\<open>AAA.svg\<close> in the cache, for
  a team with the abbreviation AAA and a logo URL.
\<close>

theorem cached_svg_conversion_fails_witness:
  "fst (ensure_logo_cached demo_libs cairo_fails (team ''AAA'' ''https://assets.example/AAA.svg'')
          (cache_with [(''logos/AAA.svg'', ''<svg>'')])) = Inr None \<and>
   list_ex is_warning (log (snd (ensure_logo_cached demo_libs cairo_fails
          (team ''AAA'' ''https://assets.example/AAA.svg'') (cache_with [(''logos/AAA.svg'', ''<svg>'')])))) \<and>
   \<not> list_ex is_download (log (snd (ensure_logo_cached demo_libs cairo_fails
          (team ''AAA'' ''https://assets.example/AAA.svg'') (cache_with [(''logos/AAA.svg'', ''<svg>'')]))))"
proof -
  let ?t = "team ''AAA'' ''https://assets.example/AAA.svg''"
  let ?s = "cache_with [(''logos/AAA.svg'', ''<svg>'')]"
  have 1: "truthy (team_abbrev ?t)" and 2: "team_logo_url ?t = JStr ''https://assets.example/AAA.svg''"
    and 3: "''https://assets.example/AAA.svg'' \<noteq> []"
    and 4: "url_ext demo_libs ''https://assets.example/AAA.svg'' = Inr ''.svg''"
    by (simp_all add: team_abbrev_def team_logo_url_def team_def dict_get_def py_or_def
        demo_libs_def demo_ext_def)
  have p: "png_path_of demo_libs (team_abbrev ?t) = ''logos/AAA.png''"
    by (simp add: png_path_of_def logo_path_def team_abbrev_def team_def dict_get_def demo_libs_def)
  have 5: "\<not> os_path_exists ?s (png_path_of demo_libs (team_abbrev ?t))"
    unfolding p by (simp add: os_path_exists_def cache_with_def)
  have 6: "files ?s (logo_path demo_libs (py_str demo_libs (team_abbrev ?t)) ''.svg'') = Some ''<svg>''"
    by (simp add: logo_path_def team_abbrev_def team_def dict_get_def demo_libs_def cache_with_def)
  have 7: "cairosvg_imported cairo_fails \<longrightarrow>
             isl (cairosvg_svg2png cairo_fails ''<svg>'' (png_path_of demo_libs (team_abbrev ?t)))"
    and 8: "svglib_available cairo_fails \<longrightarrow>
             isl (svglib_render cairo_fails ''<svg>'' (png_path_of demo_libs (team_abbrev ?t)))"
    by (simp_all add: cairo_fails_def demo_world_def)
  have l: "new_events ?s s' = log s'" for s'
    by (simp add: new_events_def cache_with_def)
  from cached_svg_conversion_fails[OF 1 2 3 4 5 6 7 8] show ?thesis
    unfolding l by simp
qed

text \<open>
  The claim as it is written fails: on that machine the server would answer, yet the run
  ends after the warning, with \<^verbatim>\<open>None\<close> and without a download (line 91 returns).
\<close>

theorem cached_svg_counterexample:
  "requests_get cairo_fails ''https://assets.example/AAA.svg'' = Inr ''<svg/>'' \<and>
   fst (ensure_logo_cached demo_libs cairo_fails
          (team ''AAA'' ''https://assets.example/AAA.svg'')
          (cache_with [(''logos/AAA.svg'', ''<svg>'')])) = Inr None \<and>
   log (snd (ensure_logo_cached demo_libs cairo_fails
          (team ''AAA'' ''https://assets.example/AAA.svg'')
          (cache_with [(''logos/AAA.svg'', ''<svg>'')]))) =
     [Print ''Converting existing AAA.svg to PNG with cairosvg...'',
      Convert Cairosvg ''logos/AAA.png'' False,
      Print ''Warning: cairosvg conversion failed for AAA: no library called cairo was found'']"
  by (simp add: run_defs cairo_fails_def)

subsection \<open>C5: a failed download or a failed write gives \<^verbatim>\<open>None\<close>\<close>

text \<open>
  Claim C5. For every team object, every machine and every state of the cache: when a
  download or a file write fails during a run of \<^verbatim>\<open>ensure_logo_cached\<close>, the failure
  is caught and the function returns \<^verbatim>\<open>None\<close>; it does not raise.
\<close>

theorem io_failure_gives_none:
  assumes "list_ex io_failure (new_events s (snd (ensure_logo_cached L W t s)))"
  shows "fst (ensure_logo_cached L W t s) = Inr None"
proof -
  obtain r s' where e: "ensure_logo_cached L W t s = (r, s')"
    by (cases "ensure_logo_cached L W t s")
  from ensure_log[OF e] assms e show ?thesis by auto
qed

text \<open>
  The theorem on two runs with an empty cache: the logo server is unreachable; the server
  answers and the disk is full.
\<close>

theorem io_failure_gives_none_witness:
  "list_ex io_failure (log (snd (ensure_logo_cached demo_libs demo_world
       (team ''AAA'' ''https://assets.example/AAA.svg'') (cache_with [])))) \<and>
   fst (ensure_logo_cached demo_libs demo_world
       (team ''AAA'' ''https://assets.example/AAA.svg'') (cache_with [])) = Inr None \<and>
   list_ex io_failure (log (snd (ensure_logo_cached demo_libs disk_full
       (team ''AAA'' ''https://assets.example/AAA.png'') (cache_with [])))) \<and>
   fst (ensure_logo_cached demo_libs disk_full
       (team ''AAA'' ''https://assets.example/AAA.png'') (cache_with [])) = Inr None"
proof -
  have l: "new_events (cache_with []) s' = log s'" for s'
    by (simp add: new_events_def cache_with_def)
  have a: "list_ex io_failure (new_events (cache_with []) (snd (ensure_logo_cached demo_libs demo_world
       (team ''AAA'' ''https://assets.example/AAA.svg'') (cache_with []))))"
    by (simp add: run_defs)
  have b: "list_ex io_failure (new_events (cache_with []) (snd (ensure_logo_cached demo_libs disk_full
       (team ''AAA'' ''https://assets.example/AAA.png'') (cache_with []))))"
    by (simp add: run_defs disk_full_def)
  from io_failure_gives_none[OF a] io_failure_gives_none[OF b] a b show ?thesis
    unfolding l by simp
qed

subsection \<open>C2: scores decide between a result and a scheduled game\<close>

text \<open>
  Claim C2. When \<^verbatim>\<open>fetch_games\<close> returns, its records are, in order, those of the
  games of the requested day. The record of a game whose two scores are present has
  \<^verbatim>\<open>is_scheduled = False\<close>; the record of a game whose two scores are absent has
  \<^verbatim>\<open>is_scheduled = True\<close> and a start time that is a string: the formatted local
  time, or \<^verbatim>\<open>"TBD"\<close> when no timestamp parses.
\<close>

theorem scores_classify:
  assumes "requests_get_json W (schedule_url d) = Inr data"
    and "fst (fetch_games L W d s) = Inr (lines, recs)"
  shows "list_all2 (classified L) (selected_games d data) recs"
proof -
  from assms have "fst (fetch_games_data L W d data s) = Inr (lines, recs)"
    by (simp add: fetch_games_served)
  from fetch_Inr[OF this] have "list_all2 (rec_of L) (selected_games d data) recs" by simp
  moreover have "classified L game r" if "rec_of L game r" for game r
    using rec_of_scored[OF that] rec_of_unscored[OF that]
    by (auto simp: classified_def both_scores_present_def both_scores_absent_def)
  ultimately show ?thesis by (rule list_all2_mono)
qed

text \<open>The theorem on the response \<open>week\<close>, requested for its second day.\<close>

theorem scores_classify_witness:
  "requests_get_json (serving week demo_world) (schedule_url ''2024-01-15'') = Inr week \<and>
   fst (fetch_games demo_libs (serving week demo_world) ''2024-01-15'' (cache_with [])) =
     Inr (week_lines, week_recs) \<and>
   list_all2 (classified demo_libs) (selected_games ''2024-01-15'' week) week_recs"
  using scores_classify[OF served week_fetch] served week_fetch by blast

subsection \<open>C3: the days of another date\<close>

text \<open>
  Claim C3. For every requested date and every response, the day entries whose date is
  not the requested string contribute nothing: the fetch of the response and the fetch of
  the response without them are the same, in the summary lines, in the records, in the
  exception if one is raised, and in every operation on the cache.
\<close>

theorem other_days_excluded: "fetch_games_data L W d (without_other_days d data) s = fetch_games_data L W d data s"
proof (cases data)
  case (JDict dd)
  show ?thesis
  proof (cases "map_of dd ''gameWeek''")
    case None
    with JDict show ?thesis by (simp add: without_other_days_def)
  next
    case (Some gw)
    show ?thesis
    proof (cases gw)
      case (JList days)
      let ?f = "filter (\<lambda>day. \<not> other_day d day) days"
      have w: "without_other_days d data = JDict (AList.update ''gameWeek'' (JList ?f) dd)"
        using JDict Some JList by (simp add: without_other_days_def)
      have l: "fetch_games_data L W d data s =
                 (if days = [] then (Inr ([], []), s) else for_days L W d days ([], []) s)"
        using JDict Some JList by (simp add: fetch_games_data_def dict_get_def)
      have r: "fetch_games_data L W d (without_other_days d data) s =
                 (if ?f = [] then (Inr ([], []), s) else for_days L W d ?f ([], []) s)"
        unfolding w by (simp add: fetch_games_data_def dict_get_def update_conv')
      have "(if ?f = [] then (Inr ([], []), s) else for_days L W d ?f ([], []) s)
              = for_days L W d ?f ([], []) s" by simp
      also have "\<dots> = for_days L W d days ([], []) s" by (rule for_days_filter)
      also have "\<dots> = (if days = [] then (Inr ([], []), s) else for_days L W d days ([], []) s)"
        by simp
      finally show ?thesis using l r by simp
    qed (use JDict Some in \<open>simp_all add: without_other_days_def\<close>)
  qed
qed (simp_all add: without_other_days_def)

subsection \<open>C6: a start time that does not parse\<close>

text \<open>
  Claim C6. Whether \<^verbatim>\<open>fetch_games\<close> raises does not depend on how the timestamps
  parse: it raises exactly the exception that the shape of the response and the logo URLs
  give. When it returns, every game that lacks a score has a line that ends with its
  display time, which is also the start time of its record: \<^verbatim>\<open>"TBD"\<close> when the
  timestamp is missing or does not parse, and a string \<^verbatim>\<open>hh:mm AM\<close> or
  \<^verbatim>\<open>hh:mm PM\<close> of the local time when it parses.
\<close>

theorem start_time_degrades:
  assumes "requests_get_json W (schedule_url d) = Inr data"
  shows "isl (fst (fetch_games (L\<lparr>to_local := f\<rparr>) W d s)) = isl (fst (fetch_games L W d s)) \<and>
         (case fst (fetch_games L W d s) of
            Inl e \<Rightarrow> fetch_exn L d data = Some e
          | Inr out \<Rightarrow> list_all2 (timed L) (selected_games d data) (zip (fst out) (snd out)))"
proof -
  have f: "fetch_games L' W d s = fetch_games_data L' W d data s" for L'
    using assms by (simp add: fetch_games_served)
  have 1: "isl (fst (fetch_games (L\<lparr>to_local := f\<rparr>) W d s)) = isl (fst (fetch_games L W d s))"
    unfolding f fetch_isl by simp
  have 2: "(case fst (fetch_games L W d s) of
            Inl e \<Rightarrow> fetch_exn L d data = Some e
          | Inr out \<Rightarrow> list_all2 (timed L) (selected_games d data) (zip (fst out) (snd out)))"
  proof (cases "fetch_exn L d data")
    case None
    from fetch_returns[OF None, of W s] obtain recs where
      r: "fst (fetch_games L W d s) = Inr (map (game_line L) (selected_games d data), recs)"
      and a: "list_all2 (rec_of L) (selected_games d data) recs"
      unfolding f by blast
    from a have "list_all2 (timed L) (selected_games d data)
                   (zip (map (game_line L) (selected_games d data)) recs)"
      by (induction rule: list_all2_induct) (simp_all add: timed_rec)
    with r show ?thesis by simp
  next
    case (Some e)
    from fetch_raises[OF Some, of W s] Some show ?thesis unfolding f by simp
  qed
  from 1 2 show ?thesis by blast
qed

text \<open>
  The theorem on the response \<open>week\<close>: no exception when no timestamp parses, and the
  lines and records of the four games.
\<close>

theorem start_time_degrades_witness:
  "requests_get_json (serving week demo_world) (schedule_url ''2024-01-15'') = Inr week \<and>
   isl (fst (fetch_games (demo_libs\<lparr>to_local := (\<lambda>t. None)\<rparr>) (serving week demo_world)
               ''2024-01-15'' (cache_with []))) = False \<and>
   list_all2 (timed demo_libs) (selected_games ''2024-01-15'' week) (zip week_lines week_recs)"
  using start_time_degrades[OF served[of week demo_world "schedule_url ''2024-01-15''"],
      where L = demo_libs and f = "\<lambda>t. None" and s = "cache_with []"]
    served week_fetch by simp

subsection \<open>C7: one finished game\<close>

text \<open>
  Claim C7. When the response has, for the requested date, one game, between AAA and BBB
  with the scores 3 and 2, and \<^verbatim>\<open>fetch_games\<close> returns, the summary lines are exactly
  \<^verbatim>\<open>"AAA vs BBB - 3:2"\<close> and there is one record, with the two teams, the two scores
  and \<^verbatim>\<open>is_scheduled = False\<close>.
\<close>

theorem finished_game_line:
  assumes "requests_get_json W (schedule_url d) = Inr data"
    and "selected_games d data = [game]"
    and "team_field ''awayTeam'' ''abbrev'' game = JStr ''AAA''"
    and "team_field ''homeTeam'' ''abbrev'' game = JStr ''BBB''"
    and "team_field ''awayTeam'' ''score'' game = JInt 3"
    and "team_field ''homeTeam'' ''score'' game = JInt 2"
    and "fst (fetch_games L W d s) = Inr (lines, recs)"
  shows "lines = [''AAA vs BBB - 3:2''] \<and>
         recs = [\<lparr> away_abbrev = JStr ''AAA'', home_abbrev = JStr ''BBB'',
                   away_score = JInt 3, home_score = JInt 2,
                   away_logo = away_logo (hd recs), home_logo = home_logo (hd recs),
                   is_scheduled = False, start_time = None \<rparr>]"
proof -
  from assms(1,7) have "fst (fetch_games_data L W d data s) = Inr (lines, recs)"
    by (simp add: fetch_games_served)
  from fetch_Inr[OF this] assms(2) obtain r where l: "lines = [game_line L game]"
    and r: "recs = [r]" "rec_of L game r"
    by (auto simp: list_all2_Cons1)
  have p: "both_scores_present game" using assms(5,6) by (simp add: both_scores_present_def)
  have "game_line L game = ''AAA vs BBB - 3:2''"
    using assms(3-6) by (simp add: game_line_scored[OF p] str_int_def str_nat.simps digit_char_def)
  moreover have "r = \<lparr> away_abbrev = JStr ''AAA'', home_abbrev = JStr ''BBB'',
                   away_score = JInt 3, home_score = JInt 2,
                   away_logo = away_logo r, home_logo = home_logo r,
                   is_scheduled = False, start_time = None \<rparr>"
    using r(2) assms(3-6) by (simp add: rec_of_def game_record_def game_entry_def)
  ultimately show ?thesis using l r(1) by simp
qed

text \<open>The theorem on the response \<open>final_week\<close>.\<close>

theorem finished_game_line_witness:
  "requests_get_json (serving final_week demo_world) (schedule_url ''2024-01-15'') = Inr final_week \<and>
   selected_games ''2024-01-15'' final_week = [scored_game ''AAA'' (JInt 3) ''BBB'' (JInt 2) JNull] \<and>
   lines_of (fetch_games demo_libs (serving final_week demo_world) ''2024-01-15'' (cache_with [])) =
     Inr [''AAA vs BBB - 3:2''] \<and>
   map is_scheduled (snd (projr (fst (fetch_games demo_libs (serving final_week demo_world)
       ''2024-01-15'' (cache_with []))))) = [False]"
proof -
  let ?g = "scored_game ''AAA'' (JInt 3) ''BBB'' (JInt 2) JNull"
  let ?run = "fetch_games demo_libs (serving final_week demo_world) ''2024-01-15'' (cache_with [])"
  obtain lines recs where r: "fst ?run = Inr (lines, recs)"
    by (simp add: fetch_games_served[OF served] final_run)
  have f: "team_field ''awayTeam'' ''abbrev'' ?g = JStr ''AAA''"
    "team_field ''homeTeam'' ''abbrev'' ?g = JStr ''BBB''"
    "team_field ''awayTeam'' ''score'' ?g = JInt 3"
    "team_field ''homeTeam'' ''score'' ?g = JInt 2"
    by (simp_all add: team_field_def scored_game_def dict_get_def dict_get_default_def)
  from finished_game_line[OF served final_selected f r]
  have l: "lines = [''AAA vs BBB - 3:2'']" and "\<exists>r. recs = [r] \<and> \<not> is_scheduled r"
    by (simp, metis game_rec.select_convs(7))
  then have "map is_scheduled recs = [False]" by auto
  with l r served final_selected show ?thesis by (simp add: lines_of_def)
qed

subsection \<open>C9: the summary lines do not depend on the cache\<close>

text \<open>
  Claim C9. Two invocations of \<^verbatim>\<open>fetch_games\<close> for the same date that get the same
  answer from the schedule endpoint give the same summary lines (or raise the same
  exception), whatever the two states of the cache are and whatever the logo server, the
  converters and the disk do. The pure library calls, the local time zone among them,
  are the same in both.
\<close>

theorem summary_lines_deterministic:
  assumes "requests_get_json W1 (schedule_url d) = requests_get_json W2 (schedule_url d)"
  shows "lines_of (fetch_games L W1 d s1) = lines_of (fetch_games L W2 d s2)"
proof (cases "requests_get_json W2 (schedule_url d)")
  case (Inl e)
  with assms show ?thesis by (simp add: fetch_games_def lines_of_def)
next
  case (Inr data)
  with assms show ?thesis by (simp add: fetch_games_served fetch_lines)
qed

text \<open>
  The theorem on two runs for \<open>logo_week\<close>: offline with an empty cache, and online
  with one logo cached.
\<close>

theorem summary_lines_deterministic_witness:
  "requests_get_json (serving logo_week demo_world) (schedule_url ''2024-01-15'') =
     requests_get_json (serving logo_week online) (schedule_url ''2024-01-15'') \<and>
   lines_of (fetch_games demo_libs (serving logo_week demo_world) ''2024-01-15'' (cache_with [])) =
     lines_of (fetch_games demo_libs (serving logo_week online) ''2024-01-15''
                 (cache_with [(''logos/AAA.png'', ''old'')])) \<and>
   lines_of (fetch_games demo_libs (serving logo_week online) ''2024-01-15''
                 (cache_with [(''logos/AAA.png'', ''old'')])) = Inr [''AAA vs BBB - TBD'']"
proof -
  have h: "requests_get_json (serving logo_week demo_world) (schedule_url ''2024-01-15'') =
     requests_get_json (serving logo_week online) (schedule_url ''2024-01-15'')"
    by (simp add: served)
  have e: "lines_of (fetch_games demo_libs (serving logo_week online) ''2024-01-15''
                 (cache_with [(''logos/AAA.png'', ''old'')])) = Inr [''AAA vs BBB - TBD'']"
    unfolding fetch_games_served[OF served]
    by (simp add: lines_of_def logo_week_def fetch_defs run_defs online_def serving_def)
  from summary_lines_deterministic[OF h, of demo_libs "cache_with []" "cache_with [(''logos/AAA.png'', ''old'')]"]
    h e show ?thesis by simp
qed

subsection \<open>C10: exactly one score\<close>

text \<open>
  Claim C10. When \<^verbatim>\<open>fetch_games\<close> returns, the record of every game of the requested
  day that has exactly one of its two scores is scheduled, and both scores of the record
  are \<^verbatim>\<open>None\<close>: the score that was present is dropped.
\<close>

theorem one_score_scheduled:
  assumes "requests_get_json W (schedule_url d) = Inr data"
    and "fst (fetch_games L W d s) = Inr (lines, recs)"
  shows "list_all2 one_score_dropped (selected_games d data) recs"
proof -
  from assms have "fst (fetch_games_data L W d data s) = Inr (lines, recs)"
    by (simp add: fetch_games_served)
  from fetch_Inr[OF this] have "list_all2 (rec_of L) (selected_games d data) recs" by simp
  moreover have "one_score_dropped game r" if "rec_of L game r" for game r
    using rec_of_unscored[OF that] by (auto simp: one_score_dropped_def)
  ultimately show ?thesis by (rule list_all2_mono)
qed

text \<open>The theorem on the response \<open>week\<close>, whose last game has one score.\<close>

theorem one_score_scheduled_witness:
  "requests_get_json (serving week demo_world) (schedule_url ''2024-01-15'') = Inr week \<and>
   fst (fetch_games demo_libs (serving week demo_world) ''2024-01-15'' (cache_with [])) =
     Inr (week_lines, week_recs) \<and>
   list_all2 one_score_dropped (selected_games ''2024-01-15'' week) week_recs"
  using one_score_scheduled[OF served week_fetch] served week_fetch by blast

subsection \<open>C8: the exit status of the batch converter\<close>

text \<open>
  Claim C8, as amended. The script exits with status 1 whenever Pillow or every converter
  library is missing, whatever the directory holds. When Pillow and a converter are
  there, it exits with status 0 whenever no name in the cache directory ends with
  \<^verbatim>\<open>.svg\<close>.
\<close>

theorem converter_exit_status:
  "(\<not> has_pillow E \<or> converter_available E = None \<longrightarrow> exit_status (convert_logos E) = 1) \<and>
   (has_pillow E \<and> converter_available E \<noteq> None \<and> listdir E = Some names \<and>
    filter (\<lambda>f. endswith f ''.svg'') names = [] \<longrightarrow> exit_status (convert_logos E) = 0)"
  by (auto simp: convert_logos_def Let_def)

text \<open>
  The theorem on two runs: no converter and one SVG file; svglib and no SVG file.
\<close>

theorem converter_exit_status_witness:
  "converter_available bare_env = None \<and>
   exit_status (convert_logos (bare_env\<lparr>listdir := Some [''AAA.svg'']\<rparr>)) = 1 \<and>
   has_pillow (bare_env\<lparr>has_svglib := True\<rparr>) \<and>
   converter_available (bare_env\<lparr>has_svglib := True\<rparr>) = Some ''svglib'' \<and>
   listdir (bare_env\<lparr>has_svglib := True\<rparr>) = Some [''AAA.png'', ''backround.jpg''] \<and>
   filter (\<lambda>f. endswith f ''.svg'') [''AAA.png'', ''backround.jpg''] = [] \<and>
   exit_status (convert_logos (bare_env\<lparr>has_svglib := True\<rparr>)) = 0"
proof -
  have a: "converter_available bare_env = None"
    "converter_available (bare_env\<lparr>listdir := Some [''AAA.svg'']\<rparr>) = None"
    by (simp_all add: converter_available_def bare_env_def)
  have b: "has_pillow (bare_env\<lparr>has_svglib := True\<rparr>)"
    "converter_available (bare_env\<lparr>has_svglib := True\<rparr>) = Some ''svglib''"
    "listdir (bare_env\<lparr>has_svglib := True\<rparr>) = Some [''AAA.png'', ''backround.jpg'']"
    "filter (\<lambda>f. endswith f ''.svg'') [''AAA.png'', ''backround.jpg''] = []"
    by (simp_all add: converter_available_def bare_env_def endswith_def)
  from converter_exit_status[of "bare_env\<lparr>listdir := Some [''AAA.svg'']\<rparr>"]
    converter_exit_status[of "bare_env\<lparr>has_svglib := True\<rparr>" "[''AAA.png'', ''backround.jpg'']"]
    a b show ?thesis by simp
qed

text \<open>
  The claim as it is written fails where its two halves meet: with no SVG file and no
  converter the status is 1, not 0, since the converters are looked for first (lines 50
  to 58 come before lines 62 to 66).
\<close>

theorem no_svg_no_converter_counterexample:
  "listdir bare_env = Some [''AAA.png'', ''backround.jpg''] \<and>
   filter (\<lambda>f. endswith f ''.svg'') [''AAA.png'', ''backround.jpg''] = [] \<and>
   exit_status (convert_logos bare_env) = 1"
  by (simp add: convert_logos_def converter_available_def bare_env_def endswith_def)

end
